theory Spec2Isabelle
  imports Main "HOL-Library.Word"
begin

section \<open>Shared data: object metadata and errors\<close>

text \<open>
  \<open>metav1.ObjectMeta\<close> is embedded in both \<open>v1alpha1.TidbCluster\<close> and
  \<open>v1alpha1.TiKVGroup\<close>; \<open>GetName()\<close> and \<open>GetNamespace()\<close> read the fields
  \<open>Name\<close> and \<open>Namespace\<close>. The type declarations themselves live outside
  \<open>tidb_control.go\<close>; only the fields the code touches are kept, and the types of
  \<open>Spec\<close> and \<open>Status\<close> stay parameters.
\<close>

record ObjectMeta =
  Name :: string
  Namespace :: string
  ResourceVersion :: string

record ('spec, 'status) TiKVGroup = ObjectMeta +
  Spec :: 'spec
  Status :: 'status

text \<open>
  A Go \<open>error\<close> value. Every error carries the text of its \<open>Error()\<close> method.
  \<open>Errorf\<close> is an error built by \<open>fmt.Errorf\<close>; \<open>Conflict\<close> is an API status error
  for which \<open>errors.IsConflict\<close> holds; \<open>Opaque\<close> is any other error handed back by
  a collaborator (transport, API server, decoder, certificate parser).
\<close>

datatype error = Errorf string | Conflict string | Opaque string

fun Error :: "error \<Rightarrow> string" where
  "Error (Errorf m) = m"
| "Error (Conflict m) = m"
| "Error (Opaque m) = m"

fun IsConflict :: "error \<Rightarrow> bool" where
  "IsConflict (Conflict m) = True"
| "IsConflict e = False"

section \<open>The member status client: \<open>defaultTiDBControl\<close>\<close>

subsection \<open>Formatting\<close>

text \<open>
  \<open>%d\<close> and \<open>%v\<close> of an integer: decimal digits, most significant first, with a
  leading minus sign for a negative number.
\<close>

definition digit_char :: "nat \<Rightarrow> char" where
  "digit_char d = ''0123456789'' ! d"

function decimal :: "nat \<Rightarrow> string" where
  "decimal n = (if n < 10 then [digit_char n] else decimal (n div 10) @ [digit_char (n mod 10)])"
  by pat_completeness auto
termination
  by (relation "measure id") auto

declare decimal.simps [simp del]

definition FormatInt :: "int \<Rightarrow> string" where
  "FormatInt i = (if i < 0 then CHR ''-'' # decimal (nat (- i)) else decimal (nat i))"

text \<open>
  \<open>fmt.Errorf(format)\<close> called with a format and no operands, as lines 97, 130 and 151
  do with a string that \<open>fmt.Sprintf\<close> already built: the formatter reads the finished
  text once more. Package \<open>fmt\<close> is outside this file; \<open>doPrintf\<close> follows it on the
  formats whose outcome does not depend on operands or flags. Literal text is copied.
  A verb made of a percent sign, at most six decimal digits and an ASCII letter finds
  no operand and prints as \<open>%!\<close>, the letter and \<open>(MISSING)\<close>; two percent signs print
  one; a format that ends inside such a verb prints \<open>%!(NOVERB)\<close>. From a verb of any
  other shape on (other flags, an index, a star, a precision, another verb character)
  the output is the parameter \<open>fmt_verbs\<close> applied to the rest of the format, starting
  at that verb's percent sign. The second argument holds the part of a verb read so
  far.
\<close>

definition is_digit :: "char \<Rightarrow> bool" where
  "is_digit c \<longleftrightarrow> c \<in> set ''0123456789''"

definition is_letter :: "char \<Rightarrow> bool" where
  "is_letter c \<longleftrightarrow> c \<in> set ''abcdefghijklmnopqrstuvwxyzABCDEFGHIJKLMNOPQRSTUVWXYZ''"

fun doPrintf :: "(string \<Rightarrow> string) \<Rightarrow> string \<Rightarrow> string \<Rightarrow> string" where
  "doPrintf fmt_verbs pending [] = (if pending = [] then [] else ''%!(NOVERB)'')"
| "doPrintf fmt_verbs pending (c # cs) =
     (if pending = [] then
        (if c = CHR ''%'' then doPrintf fmt_verbs ''%'' cs else c # doPrintf fmt_verbs [] cs)
      else if is_digit c \<and> length pending \<le> 6 then doPrintf fmt_verbs (pending @ [c]) cs
      else if c = CHR ''%'' \<and> pending = ''%'' then CHR ''%'' # doPrintf fmt_verbs [] cs
      else if is_letter c then ''%!'' @ [c] @ ''(MISSING)'' @ doPrintf fmt_verbs [] cs
      else fmt_verbs (pending @ c # cs))"

definition Errorf_format :: "(string \<Rightarrow> string) \<Rightarrow> string \<Rightarrow> error" where
  "Errorf_format fmt_verbs format = Errorf (doPrintf fmt_verbs [] format)"

subsection \<open>Data\<close>

record TidbCluster = ObjectMeta +
  IsTLSClusterEnabled :: bool

record DBInfo =
  IsOwner :: bool

record Secret =
  Data :: "string \<rightharpoonup> string"

datatype Certificate = Certificate string

record tls_Config =
  RootCAs :: "string list"
  Certificates :: "Certificate list"

record http_Client =
  Timeout :: nat
  Transport :: "tls_Config option"

record http_Request =
  Method :: string
  URL :: string

text \<open>
  A response as the code sees it: the status code, and what \<open>ioutil.ReadAll\<close> yields
  when the body is read to its end.
\<close>

record http_Response =
  StatusCode :: int
  Body :: "error + string"

text \<open>
  The receiver \<open>tdc\<close>: \<open>kubeCli_Secrets_Get ns name\<close> is the answer of
  \<open>tdc.kubeCli.CoreV1().Secrets(ns).Get(name, metav1.GetOptions{})\<close>.
\<close>

record defaultTiDBControl =
  kubeCli_Secrets_Get :: "string \<Rightarrow> string \<Rightarrow> error + Secret"
  testURL :: string

text \<open>
  What the code uses from outside this file, taken as parameters:
  \<open>util.ClusterClientTLSSecretName\<close>, the keys \<open>v1.TLSCertKey\<close>,
  \<open>v1.TLSPrivateKeyKey\<close> and \<open>v1.ServiceAccountRootCAKey\<close>, \<open>tls.X509KeyPair\<close>, the
  error of \<open>http.NewRequest\<close> for a method and a URL (if any), the round trip
  \<open>httpClient.Do\<close>, \<open>json.Unmarshal\<close> into a \<open>DBInfo\<close> (for the bodies that
  \<open>Unmarshal_DBInfo\<close> below does not decode itself) and into a \<open>config.Config\<close> (a type
  parameter), and the verb processing of \<open>fmt\<close> (for the verbs that \<open>doPrintf\<close> does not
  print itself).
\<close>

record 'cfg env =
  ClusterClientTLSSecretName :: "string \<Rightarrow> string"
  TLSCertKey :: string
  TLSPrivateKeyKey :: string
  ServiceAccountRootCAKey :: string
  X509KeyPair :: "string \<Rightarrow> string \<Rightarrow> error + Certificate"
  NewRequest_error :: "string \<Rightarrow> string \<Rightarrow> error option"
  Do :: "http_Client \<Rightarrow> http_Request \<Rightarrow> error + http_Response"
  Unmarshal_DBInfo_other :: "string \<Rightarrow> error + DBInfo"
  Unmarshal_Config :: "string \<Rightarrow> error + 'cfg"
  fmt_verbs :: "string \<Rightarrow> string"

text \<open>
  The effects of one call, in order: the secret lookup, the HTTP request sent, the
  body of the response read to its end, the body of the response released.
\<close>

datatype event = SecretsGet string string | Sent http_Request | ReadAll | Released

subsection \<open>Constants\<close>

text \<open>\<open>time.Second\<close> in nanoseconds, and the constant \<open>timeout\<close> of line 38.\<close>

definition Second :: nat where
  "Second = 1000000000"

definition timeout :: nat where
  "timeout = 5 * Second"

text \<open>
  \<open>http.StatusOK\<close> of \<open>net/http\<close>; the spec calls a response with any other code a
  non-200 response.
\<close>

definition StatusOK :: int where
  "StatusOK = 200"

text \<open>
  Go's two-valued map index \<open>v, ok := m[k]\<close>: the zero value and \<open>false\<close> for a key
  that is missing.
\<close>

definition lookup :: "(string \<rightharpoonup> string) \<Rightarrow> string \<Rightarrow> string \<times> bool" where
  "lookup m k = (case m k of None \<Rightarrow> ([], False) | Some v \<Rightarrow> (v, True))"

subsection \<open>Helpers of the repository that are not in this file\<close>

text \<open>
  Modelled from the spec: \<open>TiDBMemberName\<close> is defined elsewhere in package
  \<open>controller\<close>. The spec's scenario, cluster \<open>demo\<close> and ordinal 1 giving
  \<open>http://demo-tidb-1.demo-tidb-peer.default:10080\<close>, fixes the member name as the
  cluster name followed by \<open>-tidb\<close>.
\<close>

definition TiDBMemberName :: "string \<Rightarrow> string" where
  "TiDBMemberName clusterName = clusterName @ ''-tidb''"

text \<open>
  Modelled from the spec: \<open>TiDBPeerMemberName\<close> is defined elsewhere in package
  \<open>controller\<close>. The same scenario fixes the peer service name as the cluster name
  followed by \<open>-tidb-peer\<close>.
\<close>

definition TiDBPeerMemberName :: "string \<Rightarrow> string" where
  "TiDBPeerMemberName clusterName = clusterName @ ''-tidb-peer''"

text \<open>
  Modelled from the spec: \<open>tc.Scheme()\<close> is a method of \<open>v1alpha1.TidbCluster\<close>. The
  spec has the scheme reflect the TLS posture, plaintext or TLS, and its scenario gives
  \<open>http\<close> for a cluster without TLS.
\<close>

definition Scheme :: "TidbCluster \<Rightarrow> string" where
  "Scheme tc = (if IsTLSClusterEnabled tc then ''https'' else ''http'')"

text \<open>
  Modelled from the spec: \<open>httputil.DeferClose\<close> (package \<open>pkg/util/http\<close>) is not in
  this file. The spec calls it the scoped release of the response body, which drains
  and closes it; these are the events of running it on the body of a response.
\<close>

definition DeferClose :: "event list" where
  "DeferClose = [Released]"

subsection \<open>Decoding the info payload\<close>

text \<open>
  \<open>json.Unmarshal(body, &info)\<close> of line 105, for \<open>info\<close> a \<open>DBInfo\<close>, whose one field
  \<open>IsOwner\<close> carries the tag \<open>is_owner\<close> (line 42). Package \<open>encoding/json\<close> is outside
  this file. On a body that is a JSON object with the single member \<open>is_owner\<close> and a
  boolean value, JSON white space allowed around the tokens, it stores that value and
  returns no error; this is the payload of the spec's section 6. What it makes of any
  other body is the parameter \<open>Unmarshal_DBInfo_other\<close>.
\<close>

definition json_space :: "char \<Rightarrow> bool" where
  "json_space c \<longleftrightarrow> c \<in> set [CHR 0x20, CHR 0x09, CHR 0x0A, CHR 0x0D]"

definition skip_space :: "string \<Rightarrow> string" where
  "skip_space s = dropWhile json_space s"

text \<open>The rest of the text after a given token, if the text starts with it.\<close>

fun token :: "string \<Rightarrow> string \<Rightarrow> string option" where
  "token [] s = Some s"
| "token (x # xs) [] = None"
| "token (x # xs) (y # ys) = (if x = y then token xs ys else None)"

definition is_owner_key :: string where
  "is_owner_key = [CHR 0x22] @ ''is_owner'' @ [CHR 0x22]"

definition closing :: "bool \<Rightarrow> string \<Rightarrow> bool option" where
  "closing b s =
     (case token ''}'' (skip_space s) of
        None \<Rightarrow> None
      | Some rest \<Rightarrow> if skip_space rest = [] then Some b else None)"

definition is_owner_object :: "string \<Rightarrow> bool option" where
  "is_owner_object body =
     (case token ''{'' (skip_space body) of
        None \<Rightarrow> None
      | Some s1 \<Rightarrow>
          (case token is_owner_key (skip_space s1) of
             None \<Rightarrow> None
           | Some s2 \<Rightarrow>
               (case token '':'' (skip_space s2) of
                  None \<Rightarrow> None
                | Some s3 \<Rightarrow>
                    (case token ''true'' (skip_space s3) of
                       Some s4 \<Rightarrow> closing True s4
                     | None \<Rightarrow>
                         (case token ''false'' (skip_space s3) of
                            Some s4 \<Rightarrow> closing False s4
                          | None \<Rightarrow> None)))))"

definition Unmarshal_DBInfo :: "'cfg env \<Rightarrow> string \<Rightarrow> error + DBInfo" where
  "Unmarshal_DBInfo w body =
     (case is_owner_object body of
        Some b \<Rightarrow> Inr \<lparr>IsOwner = b\<rparr>
      | None \<Rightarrow> Unmarshal_DBInfo_other w body)"

subsection \<open>The operations\<close>

text \<open>\<open>getBaseURL\<close> (lines 199 to 210).\<close>

definition getBaseURL :: "defaultTiDBControl \<Rightarrow> TidbCluster \<Rightarrow> 32 word \<Rightarrow> string" where
  "getBaseURL tdc tc ordinal =
     (if testURL tdc \<noteq> [] then testURL tdc
      else
        (let tcName = Name tc;
             ns = Namespace tc;
             scheme = Scheme tc;
             hostName = TiDBMemberName tcName @ ''-'' @ FormatInt (sint ordinal)
         in scheme @ ''://'' @ hostName @ ''.'' @ TiDBPeerMemberName tcName @ ''.'' @ ns
              @ '':10080''))"

text \<open>\<open>getHTTPClient\<close> (lines 163 to 197).\<close>

definition getHTTPClient ::
  "'cfg env \<Rightarrow> defaultTiDBControl \<Rightarrow> TidbCluster \<Rightarrow> (error + http_Client) \<times> event list" where
  "getHTTPClient w tdc tc =
     (let httpClient = \<lparr>Timeout = timeout, Transport = None\<rparr>
      in if \<not> IsTLSClusterEnabled tc then (Inr httpClient, [])
         else
           (let tcName = Name tc;
                ns = Namespace tc;
                secretName = ClusterClientTLSSecretName w tcName
            in case kubeCli_Secrets_Get tdc ns secretName of
                 Inl err \<Rightarrow> (Inl err, [SecretsGet ns secretName])
               | Inr secret \<Rightarrow>
                   (let (clientCert, certExists) = lookup (Data secret) (TLSCertKey w);
                        (clientKey, keyExists) = lookup (Data secret) (TLSPrivateKeyKey w)
                    in if \<not> certExists \<or> \<not> keyExists
                       then (Inl (Errorf (''cert or key does not exist in secret '' @ ns @ ''/''
                                          @ secretName)),
                             [SecretsGet ns secretName])
                       else
                         (case X509KeyPair w clientCert clientKey of
                            Inl err \<Rightarrow>
                              (Inl (Errorf (''unable to load certificates from secret '' @ ns
                                            @ ''/'' @ secretName @ '': '' @ Error err)),
                               [SecretsGet ns secretName])
                          | Inr tlsCert \<Rightarrow>
                              (let rootCAs =
                                     [fst (lookup (Data secret) (ServiceAccountRootCAKey w))];
                                   config = \<lparr>RootCAs = rootCAs, Certificates = [tlsCert]\<rparr>
                               in (Inr (httpClient\<lparr>Transport := Some config\<rparr>),
                                   [SecretsGet ns secretName]))))))"

text \<open>\<open>http.NewRequest(method, url, nil)\<close>.\<close>

definition NewRequest :: "'cfg env \<Rightarrow> string \<Rightarrow> string \<Rightarrow> error + http_Request" where
  "NewRequest w method url =
     (case NewRequest_error w method url of
        Some err \<Rightarrow> Inl err
      | None \<Rightarrow> Inr \<lparr>Method = method, URL = url\<rparr>)"

text \<open>\<open>httpClient.Get(url)\<close>: build a \<open>GET\<close> request and send it.\<close>

definition http_Get ::
  "'cfg env \<Rightarrow> http_Client \<Rightarrow> string \<Rightarrow> (error + http_Response) \<times> event list" where
  "http_Get w httpClient url =
     (case NewRequest w ''GET'' url of
        Inl err \<Rightarrow> (Inl err, [])
      | Inr req \<Rightarrow> (Do w httpClient req, [Sent req]))"

text \<open>\<open>getBodyOK\<close> (lines 145 to 161).\<close>

definition getBodyOK ::
  "'cfg env \<Rightarrow> http_Client \<Rightarrow> string \<Rightarrow> (error + string) \<times> event list" where
  "getBodyOK w httpClient apiURL =
     (case http_Get w httpClient apiURL of
        (Inl err, t) \<Rightarrow> (Inl err, t)
      | (Inr res, t) \<Rightarrow>
          if StatusCode res \<ge> 400
          then (Inl (Errorf_format (fmt_verbs w)
                       (''Error response '' @ FormatInt (StatusCode res) @ '' URL '' @ apiURL)),
                t)
          else
            (case Body res of
               Inl err \<Rightarrow> (Inl err, t @ [ReadAll] @ DeferClose)
             | Inr body \<Rightarrow> (Inr body, t @ [ReadAll] @ DeferClose)))"

text \<open>\<open>GetHealth\<close> (lines 67 to 77).\<close>

definition GetHealth ::
  "'cfg env \<Rightarrow> defaultTiDBControl \<Rightarrow> TidbCluster \<Rightarrow> 32 word
     \<Rightarrow> (bool \<times> error option) \<times> event list" where
  "GetHealth w tdc tc ordinal =
     (case getHTTPClient w tdc tc of
        (Inl err, t) \<Rightarrow> ((False, Some err), t)
      | (Inr httpClient, t) \<Rightarrow>
          (let baseURL = getBaseURL tdc tc ordinal;
               url = baseURL @ ''/status''
           in case getBodyOK w httpClient url of
                (Inl err, t') \<Rightarrow> ((False, None), t @ t')
              | (Inr body, t') \<Rightarrow> ((True, None), t @ t')))"

text \<open>\<open>GetInfo\<close> (lines 79 to 110). The deferred release runs when the function returns.\<close>

definition GetInfo ::
  "'cfg env \<Rightarrow> defaultTiDBControl \<Rightarrow> TidbCluster \<Rightarrow> 32 word
     \<Rightarrow> (DBInfo option \<times> error option) \<times> event list" where
  "GetInfo w tdc tc ordinal =
     (case getHTTPClient w tdc tc of
        (Inl err, t) \<Rightarrow> ((None, Some err), t)
      | (Inr httpClient, t) \<Rightarrow>
          (let baseURL = getBaseURL tdc tc ordinal;
               url = baseURL @ ''/info''
           in case NewRequest w ''POST'' url of
                Inl err \<Rightarrow> ((None, Some err), t)
              | Inr req \<Rightarrow>
                  (case Do w httpClient req of
                     Inl err \<Rightarrow> ((None, Some err), t @ [Sent req])
                   | Inr res \<Rightarrow>
                       if StatusCode res \<noteq> StatusOK
                       then ((None, Some (Errorf_format (fmt_verbs w)
                                           (''Error response '' @ FormatInt (StatusCode res)
                                            @ '' URL: '' @ url))),
                             t @ [Sent req] @ DeferClose)
                       else
                         (case Body res of
                            Inl err \<Rightarrow> ((None, Some err), t @ [Sent req, ReadAll] @ DeferClose)
                          | Inr body \<Rightarrow>
                              (case Unmarshal_DBInfo w body of
                                 Inl err \<Rightarrow>
                                   ((None, Some err), t @ [Sent req, ReadAll] @ DeferClose)
                               | Inr info \<Rightarrow>
                                   ((Some info, None), t @ [Sent req, ReadAll] @ DeferClose))))))"

text \<open>\<open>GetSettings\<close> (lines 112 to 143).\<close>

definition GetSettings ::
  "'cfg env \<Rightarrow> defaultTiDBControl \<Rightarrow> TidbCluster \<Rightarrow> 32 word
     \<Rightarrow> ('cfg option \<times> error option) \<times> event list" where
  "GetSettings w tdc tc ordinal =
     (case getHTTPClient w tdc tc of
        (Inl err, t) \<Rightarrow> ((None, Some err), t)
      | (Inr httpClient, t) \<Rightarrow>
          (let baseURL = getBaseURL tdc tc ordinal;
               url = baseURL @ ''/settings''
           in case NewRequest w ''GET'' url of
                Inl err \<Rightarrow> ((None, Some err), t)
              | Inr req \<Rightarrow>
                  (case Do w httpClient req of
                     Inl err \<Rightarrow> ((None, Some err), t @ [Sent req])
                   | Inr res \<Rightarrow>
                       if StatusCode res \<noteq> StatusOK
                       then ((None, Some (Errorf_format (fmt_verbs w)
                                           (''Error response '' @ FormatInt (StatusCode res)
                                            @ '' URL: '' @ url))),
                             t @ [Sent req] @ DeferClose)
                       else
                         (case Body res of
                            Inl err \<Rightarrow> ((None, Some err), t @ [Sent req, ReadAll] @ DeferClose)
                          | Inr body \<Rightarrow>
                              (case Unmarshal_Config w body of
                                 Inl err \<Rightarrow>
                                   ((None, Some err), t @ [Sent req, ReadAll] @ DeferClose)
                               | Inr info \<Rightarrow>
                                   ((Some info, None), t @ [Sent req, ReadAll] @ DeferClose))))))"

subsection \<open>A concrete cluster, secret store and server\<close>

definition ex_tc :: TidbCluster where
  "ex_tc = \<lparr>Name = ''demo'', Namespace = ''default'', ResourceVersion = ''1'',
            IsTLSClusterEnabled = False\<rparr>"

definition ex_tc_tls :: TidbCluster where
  "ex_tc_tls = ex_tc\<lparr>IsTLSClusterEnabled := True\<rparr>"

text \<open>The secret store holds a secret with a certificate and a CA bundle but no private key.\<close>

definition ex_tdc :: defaultTiDBControl where
  "ex_tdc =
     \<lparr>kubeCli_Secrets_Get =
        (\<lambda>ns name. Inr \<lparr>Data = [''tls.crt'' \<mapsto> ''cert'', ''ca.crt'' \<mapsto> ''ca'']\<rparr>),
      testURL = []\<rparr>"

definition ex_body :: string where
  "ex_body = ''{'' @ [CHR 0x22] @ ''is_owner'' @ [CHR 0x22] @ '':true}''"

text \<open>
  The server answers a \<open>POST\<close> with status 200 and the body \<open>ex_body\<close>; it answers
  every other request with status 503.
\<close>

definition ex_env :: "string env" where
  "ex_env =
     \<lparr>ClusterClientTLSSecretName = (\<lambda>tcName. tcName @ ''-cluster-client-secret''),
      TLSCertKey = ''tls.crt'',
      TLSPrivateKeyKey = ''tls.key'',
      ServiceAccountRootCAKey = ''ca.crt'',
      X509KeyPair = (\<lambda>certPEM keyPEM. Inr (Certificate certPEM)),
      NewRequest_error = (\<lambda>method url. None),
      Do = (\<lambda>httpClient req.
              if Method req = ''POST'' then Inr \<lparr>StatusCode = 200, Body = Inr ex_body\<rparr>
              else Inr \<lparr>StatusCode = 503, Body = Inr ''unavailable''\<rparr>),
      Unmarshal_DBInfo_other = (\<lambda>body. Inl (Opaque ''invalid character'')),
      Unmarshal_Config = (\<lambda>body. Inr body),
      fmt_verbs = (\<lambda>rest. rest)\<rparr>"



text \<open>A server that answers every request with status 200.\<close>

definition ex_env_ok :: "string env" where
  "ex_env_ok = ex_env\<lparr>Do := (\<lambda>httpClient req. Inr \<lparr>StatusCode = 200, Body = Inr ''ok''\<rparr>)\<rparr>"

section \<open>The optimistic status updater: \<open>realTiKVGroupControl.UpdateTiKVGroup\<close>\<close>

text \<open>
  Pointers are addresses into an explicit heap of \<open>TiKVGroup\<close> objects. The objects
  that exist when \<open>UpdateTiKVGroup\<close> is entered (the caller's object, every object of
  the lister's shared cache) sit below the allocation pointer \<open>next_addr\<close>;
  \<open>DeepCopy\<close> allocates at \<open>next_addr\<close>.
\<close>

type_synonym addr = nat

text \<open>
  The receiver \<open>rtc\<close>. \<open>cli_Update k ns obj\<close> is what the \<open>k\<close>-th call (from 0) of
  \<open>rtc.cli.PingcapV1alpha1().TiKVGroups(ns).Update\<close> returns when it is sent \<open>obj\<close>:
  Go's pair of a result pointer and an error (\<open>None\<close> is \<open>nil\<close>).
  \<open>tgLister_Get k ns name\<close> is what the \<open>k\<close>-th call of
  \<open>rtc.tgLister.TiKVGroups(ns).Get(name)\<close> returns: an error, or a pointer into the
  shared cache. \<open>DefaultRetry_Steps\<close> is the field \<open>Steps\<close> of \<open>retry.DefaultRetry\<close>,
  a value of the client library that is not part of this file.
\<close>

record ('spec, 'status) realTiKVGroupControl =
  cli_Update :: "nat \<Rightarrow> string \<Rightarrow> ('spec, 'status) TiKVGroup
                   \<Rightarrow> ('spec, 'status) TiKVGroup option \<times> error option"
  tgLister_Get :: "nat \<Rightarrow> string \<Rightarrow> string \<Rightarrow> error + addr"
  DefaultRetry_Steps :: nat

datatype log_entry = Infof string | Warningf string | HandleError error

text \<open>
  The variables the closure captures (\<open>tg\<close>, \<open>updateTg\<close>) together with the heap and
  the observable traces: \<open>writes\<close> holds the object sent by each call of \<open>Update\<close>,
  \<open>fetched\<close> the answer of each call of the lister, \<open>logs\<close> the log lines.
\<close>

record ('spec, 'status) state =
  heap :: "addr \<Rightarrow> ('spec, 'status) TiKVGroup"
  next_addr :: addr
  tg :: addr
  updateTg :: "('spec, 'status) TiKVGroup option"
  writes :: "('spec, 'status) TiKVGroup list"
  fetched :: "(error + addr) list"
  logs :: "log_entry list"

text \<open>\<open>updated.DeepCopy()\<close>: a fresh object with the same contents.\<close>

definition DeepCopy :: "addr \<Rightarrow> ('spec, 'status) state \<Rightarrow> addr \<times> ('spec, 'status) state" where
  "DeepCopy p s =
     (next_addr s, s\<lparr>heap := (heap s)(next_addr s := heap s p), next_addr := Suc (next_addr s)\<rparr>)"

text \<open>The body of the closure passed to \<open>retry.RetryOnConflict\<close> (lines 304 to 322).\<close>

definition attempt ::
  "('spec, 'status) realTiKVGroupControl \<Rightarrow> string \<Rightarrow> string \<Rightarrow> 'status
     \<Rightarrow> ('spec, 'status) state \<Rightarrow> error option \<times> ('spec, 'status) state" where
  "attempt rtc ns name status s =
     (let obj = heap s (tg s);
          (result, updateErr) = cli_Update rtc (length (writes s)) ns obj;
          s1 = s\<lparr>updateTg := result, writes := writes s @ [obj]\<rparr>
      in case updateErr of
           None \<Rightarrow>
             (None, s1\<lparr>logs := logs s1 @
                [Infof (''TiKVGroup: ['' @ ns @ ''/'' @ name @ ''] updated successfully'')]\<rparr>)
         | Some e \<Rightarrow>
             (let s2 = s1\<lparr>logs := logs s1 @
                         [Warningf (''failed to update TiKVGroup: ['' @ ns @ ''/'' @ name
                                    @ ''], error: '' @ Error e)]\<rparr>;
                  r = tgLister_Get rtc (length (fetched s2)) ns name;
                  s3 = s2\<lparr>fetched := fetched s2 @ [r]\<rparr>
              in case r of
                   Inr updated \<Rightarrow>
                     (let (copy, s4) = DeepCopy updated s3;
                          s5 = s4\<lparr>tg := copy\<rparr>
                      in (Some e, s5\<lparr>heap := (heap s5)(tg s5 := (heap s5 (tg s5))\<lparr>Status := status\<rparr>)\<rparr>))
                 | Inl err \<Rightarrow>
                     (Some e, s3\<lparr>logs := logs s3 @
                        [HandleError (Errorf (''error getting updated TiKVGroup '' @ ns @ ''/''
                           @ name @ '' from lister: '' @ Error err))]\<rparr>)))"

text \<open>
  Modelled from the spec: \<open>retry.RetryOnConflict\<close> belongs to the client library
  (\<open>k8s.io/client-go/util/retry\<close>) and is not part of the source file. The spec bounds
  the attempts by a fixed budget, returns at once on success, retries on a write
  conflict, lets every other error through on first occurrence, and surfaces the last
  conflict error when the budget is used up. The first argument is the number of
  attempts left, the third the last conflict error seen (\<open>nil\<close> at the start). The
  pauses between attempts are not modelled.
\<close>

fun RetryOnConflict ::
  "nat \<Rightarrow> ('s \<Rightarrow> error option \<times> 's) \<Rightarrow> error option \<Rightarrow> 's \<Rightarrow> error option \<times> 's" where
  "RetryOnConflict 0 fn lastConflictErr s = (lastConflictErr, s)"
| "RetryOnConflict (Suc n) fn lastConflictErr s =
     (case fn s of
        (None, s') \<Rightarrow> (None, s')
      | (Some e, s') \<Rightarrow>
          if IsConflict e then RetryOnConflict n fn (Some e) s' else (Some e, s'))"

text \<open>
  \<open>UpdateTiKVGroup\<close> (lines 296 to 324). The arguments are the receiver, the heap
  and allocation pointer at entry, the pointer \<open>tg\<close>, and the two status pointers
  \<open>newStatus\<close> and \<open>oldStatus\<close> (\<open>None\<close> is \<open>nil\<close>). The result is the returned error
  together with the final state, whose field \<open>updateTg\<close> is the returned object.
\<close>

definition UpdateTiKVGroup ::
  "('spec, 'status) realTiKVGroupControl \<Rightarrow> (addr \<Rightarrow> ('spec, 'status) TiKVGroup) \<Rightarrow> addr
     \<Rightarrow> addr \<Rightarrow> 'status option \<Rightarrow> 'status option
     \<Rightarrow> error option \<times> ('spec, 'status) state" where
  "UpdateTiKVGroup rtc h nxt tgp newStatus oldStatus =
     (let ns = Namespace (h tgp);
          name = Name (h tgp);
          status = Status (h tgp)
      in RetryOnConflict (DefaultRetry_Steps rtc) (attempt rtc ns name status) None
           \<lparr>heap = h, next_addr = nxt, tg = tgp, updateTg = None,
            writes = [], fetched = [], logs = []\<rparr>)"

subsection \<open>What a run looks like from outside\<close>

text \<open>
  The most recent successful answer among the first \<open>k\<close> calls of the lister.
\<close>

fun latest_fetch :: "(nat \<Rightarrow> error + addr) \<Rightarrow> nat \<Rightarrow> addr option" where
  "latest_fetch g 0 = None"
| "latest_fetch g (Suc k) = (case g k of Inr a \<Rightarrow> Some a | Inl err \<Rightarrow> latest_fetch g k)"

text \<open>
  The object the \<open>k\<close>-th write attempt sends, read off the heap at entry: the
  caller's object while no fetch has succeeded, afterwards the latest fetched object
  carrying the status the caller's object had at entry.
\<close>

definition working_object ::
  "('spec, 'status) realTiKVGroupControl \<Rightarrow> (addr \<Rightarrow> ('spec, 'status) TiKVGroup) \<Rightarrow> addr
     \<Rightarrow> nat \<Rightarrow> ('spec, 'status) TiKVGroup" where
  "working_object rtc h tgp k =
     (case latest_fetch (\<lambda>i. tgLister_Get rtc i (Namespace (h tgp)) (Name (h tgp))) k of
        None \<Rightarrow> h tgp
      | Some a \<Rightarrow> (h a)\<lparr>Status := Status (h tgp)\<rparr>)"

fun is_conflict :: "error option \<Rightarrow> bool" where
  "is_conflict None = False"
| "is_conflict (Some e) = IsConflict e"

text \<open>
  The lister hands out pointers to objects that exist when \<open>UpdateTiKVGroup\<close> is
  entered (Go has no dangling pointers; every version of the cached object is taken to
  be on the heap already).
\<close>

definition lister_valid ::
  "('spec, 'status) realTiKVGroupControl \<Rightarrow> (addr \<Rightarrow> ('spec, 'status) TiKVGroup) \<Rightarrow> addr
     \<Rightarrow> addr \<Rightarrow> bool" where
  "lister_valid rtc h nxt tgp \<longleftrightarrow>
     (\<forall>i a. tgLister_Get rtc i (Namespace (h tgp)) (Name (h tgp)) = Inr a \<longrightarrow> a < nxt)"

text \<open>The loop invariant between two attempts, all earlier attempts having failed.\<close>

definition loop_inv ::
  "('spec, 'status) realTiKVGroupControl \<Rightarrow> (addr \<Rightarrow> ('spec, 'status) TiKVGroup) \<Rightarrow> addr
     \<Rightarrow> addr \<Rightarrow> ('spec, 'status) state \<Rightarrow> bool" where
  "loop_inv rtc h nxt tgp s \<longleftrightarrow>
     length (fetched s) = length (writes s) \<and> nxt \<le> next_addr s \<and>
     (\<forall>b<nxt. heap s b = h b) \<and>
     heap s (tg s) = working_object rtc h tgp (length (writes s)) \<and>
     writes s = map (working_object rtc h tgp) [0..<length (writes s)]"

definition closure ::
  "('spec, 'status) realTiKVGroupControl \<Rightarrow> (addr \<Rightarrow> ('spec, 'status) TiKVGroup) \<Rightarrow> addr
     \<Rightarrow> ('spec, 'status) state \<Rightarrow> error option \<times> ('spec, 'status) state" where
  "closure rtc h tgp = attempt rtc (Namespace (h tgp)) (Name (h tgp)) (Status (h tgp))"

definition init ::
  "(addr \<Rightarrow> ('spec, 'status) TiKVGroup) \<Rightarrow> addr \<Rightarrow> addr \<Rightarrow> ('spec, 'status) state" where
  "init h nxt tgp =
     \<lparr>heap = h, next_addr = nxt, tg = tgp, updateTg = None, writes = [], fetched = [], logs = []\<rparr>"

subsection \<open>Concrete stores and listers\<close>

definition ex_live :: "(string, string) TiKVGroup" where
  "ex_live = \<lparr>Name = ''tg'', Namespace = ''ns'', ResourceVersion = ''1'',
              Spec = ''spec-original'', Status = ''live''\<rparr>"

definition ex_cached :: "(string, string) TiKVGroup" where
  "ex_cached = \<lparr>Name = ''tg'', Namespace = ''ns'', ResourceVersion = ''2'',
                Spec = ''spec-latest'', Status = ''stale''\<rparr>"

text \<open>Address 0 holds the caller's object, address 1 the lister's cached object.\<close>

definition ex_heap :: "addr \<Rightarrow> (string, string) TiKVGroup" where
  "ex_heap a = (if a = 0 then ex_live else ex_cached)"

text \<open>One conflict, then success; the lister answers with the cached object.\<close>

definition ex_rtc :: "(string, string) realTiKVGroupControl" where
  "ex_rtc =
     \<lparr>cli_Update = (\<lambda>k ns obj. if k = 0 then (None, Some (Conflict ''conflict'')) else (Some obj, None)),
      tgLister_Get = (\<lambda>k ns name. Inr 1),
      DefaultRetry_Steps = 5\<rparr>"

text \<open>Two conflicts, then success; the first lookup fails, the second succeeds.\<close>

definition ex_rtc_lookup :: "(string, string) realTiKVGroupControl" where
  "ex_rtc_lookup =
     \<lparr>cli_Update = (\<lambda>k ns obj. if k < 2 then (None, Some (Conflict ''conflict'')) else (Some obj, None)),
      tgLister_Get = (\<lambda>k ns name. if k = 0 then Inl (Opaque ''not found'') else Inr 1),
      DefaultRetry_Steps = 5\<rparr>"

text \<open>Every write meets a conflict.\<close>

definition ex_rtc_conflicts :: "(string, string) realTiKVGroupControl" where
  "ex_rtc_conflicts =
     \<lparr>cli_Update = (\<lambda>k ns obj. (None, Some (Conflict (if k = 4 then ''fifth conflict'' else ''conflict'')))),
      tgLister_Get = (\<lambda>k ns name. Inr 1),
      DefaultRetry_Steps = 5\<rparr>"

text \<open>One conflict, then an error that is not a conflict.\<close>

definition ex_rtc_failure :: "(string, string) realTiKVGroupControl" where
  "ex_rtc_failure =
     \<lparr>cli_Update = (\<lambda>k ns obj. if k = 0 then (None, Some (Conflict ''conflict''))
                                  else (None, Some (Opaque ''server unavailable''))),
      tgLister_Get = (\<lambda>k ns name. Inr 1),
      DefaultRetry_Steps = 5\<rparr>"

section \<open>Properties of the member status client\<close>

subsection \<open>Decimal formatting\<close>

lemma digit_char_mem: "d < 10 \<Longrightarrow> digit_char d \<in> set ''0123456789''"
  unfolding digit_char_def by (rule nth_mem) simp

lemma digit_char_inj:
  assumes "n < 10" and "m < 10" and "digit_char n = digit_char m"
  shows "n = m"
proof -
  have "distinct ''0123456789''" by simp
  with assms show ?thesis
    unfolding digit_char_def by (simp add: nth_eq_iff_index_eq)
qed

lemma decimal_small: "n < 10 \<Longrightarrow> decimal n = [digit_char n]"
  by (simp add: decimal.simps)

lemma decimal_large: "\<not> n < 10 \<Longrightarrow> decimal n = decimal (n div 10) @ [digit_char (n mod 10)]"
  by (subst decimal.simps) simp

lemma decimal_not_Nil: "decimal n \<noteq> []"
  by (cases "n < 10") (simp_all add: decimal_small decimal_large)

lemma decimal_digits: "set (decimal n) \<subseteq> set ''0123456789''"
proof (induction n rule: decimal.induct)
  case (1 n)
  show ?case
  proof (cases "n < 10")
    case True
    then show ?thesis using digit_char_mem [of n] by (simp add: decimal_small)
  next
    case False
    have "digit_char (n mod 10) \<in> set ''0123456789''" by (rule digit_char_mem) simp
    with False 1 show ?thesis by (simp add: decimal_large)
  qed
qed

lemma decimal_inj: "decimal n = decimal m \<Longrightarrow> n = m"
proof (induction n arbitrary: m rule: decimal.induct)
  case (1 n)
  show ?case
  proof (cases "n < 10")
    case True
    show ?thesis
    proof (cases "m < 10")
      case m: True
      with True "1.prems" show ?thesis by (simp add: decimal_small digit_char_inj)
    next
      case m: False
      with True "1.prems" decimal_not_Nil [of "m div 10"] show ?thesis
        by (simp add: decimal_small decimal_large)
    qed
  next
    case False
    show ?thesis
    proof (cases "m < 10")
      case m: True
      with False "1.prems" decimal_not_Nil [of "n div 10"] show ?thesis
        by (simp add: decimal_small decimal_large)
    next
      case m: False
      with False "1.prems" have d: "decimal (n div 10) = decimal (m div 10)"
        and c: "digit_char (n mod 10) = digit_char (m mod 10)"
        by (simp_all add: decimal_large)
      from "1.IH" [OF False d] have "n div 10 = m div 10" .
      moreover from c have "n mod 10 = m mod 10" by (intro digit_char_inj) simp_all
      ultimately show ?thesis by (metis div_mult_mod_eq)
    qed
  qed
qed

lemma FormatInt_not_Nil: "FormatInt i \<noteq> []"
  by (simp add: FormatInt_def decimal_not_Nil)

lemma set_Cons_mono: "set xs \<subseteq> set ds \<Longrightarrow> set (c # xs) \<subseteq> set (c # ds)"
  by auto

lemma set_Cons_weaken: "set xs \<subseteq> set ds \<Longrightarrow> set xs \<subseteq> set (c # ds)"
  by auto

lemma FormatInt_chars: "set (FormatInt i) \<subseteq> set ''-0123456789''"
proof (cases "i < 0")
  case True
  have "set (CHR ''-'' # decimal (nat (- i))) \<subseteq> set ''-0123456789''"
    using decimal_digits by (rule set_Cons_mono)
  with True show ?thesis by (simp only: FormatInt_def if_True)
next
  case False
  have "set (decimal (nat i)) \<subseteq> set ''-0123456789''"
    using decimal_digits by (rule set_Cons_weaken)
  with False show ?thesis by (simp only: FormatInt_def if_False)
qed

lemma FormatInt_no_letter:
  assumes "c \<in> set (FormatInt i)"
  shows "c \<noteq> CHR ''t'' \<and> c \<noteq> CHR ''.'' \<and> c \<noteq> CHR ''%'' \<and> c \<noteq> CHR ''p''"
proof -
  from assms FormatInt_chars have "c \<in> set ''-0123456789''" by blast
  then show ?thesis by auto
qed

lemma FormatInt_inj: "FormatInt i = FormatInt j \<Longrightarrow> i = j"
proof -
  assume eq: "FormatInt i = FormatInt j"
  then have hd: "hd (FormatInt i) = hd (FormatInt j)" by simp
  have no_minus: "hd (decimal n) \<noteq> CHR ''-''" for n
  proof -
    have "hd (decimal n) \<in> set (decimal n)" by (simp add: decimal_not_Nil)
    with decimal_digits [of n] show ?thesis by auto
  qed
  show "i = j"
  proof (cases "i < 0")
    case True
    show ?thesis
    proof (cases "j < 0")
      case j: True
      with True eq have "nat (- i) = nat (- j)" by (simp add: FormatInt_def decimal_inj)
      with True j show ?thesis by simp
    next
      case j: False
      with True hd no_minus [of "nat j"] show ?thesis by (simp add: FormatInt_def)
    qed
  next
    case False
    show ?thesis
    proof (cases "j < 0")
      case j: True
      with False hd no_minus [of "nat i"] show ?thesis by (simp add: FormatInt_def)
    next
      case j: False
      with False eq have "nat i = nat j" by (simp add: FormatInt_def decimal_inj)
      with False j show ?thesis by simp
    qed
  qed
qed

subsection \<open>The base URL\<close>

lemma marker_shift:
  assumes eq: "''-tidb-'' @ d1 @ ''.'' @ c = u @ ''-tidb-'' @ d2 @ ''.'' @ c @ u"
    and t: "CHR ''t'' \<notin> set d1"
  shows "u = []"
proof (rule ccontr)
  assume u: "u \<noteq> []"
  let ?k = "length u"
  from u have k: "1 \<le> ?k" by (cases u) simp_all
  from eq have "length (''-tidb-'' @ d1 @ ''.'' @ c) = length (u @ ''-tidb-'' @ d2 @ ''.'' @ c @ u)"
    by (rule arg_cong)
  then have len: "length d1 = 2 * ?k + length d2" by simp
  have "(u @ ''-tidb-'' @ d2 @ ''.'' @ c @ u) ! (?k + 1) = CHR ''t''"
    by (simp add: nth_append)
  with eq have lhs: "(''-tidb-'' @ d1 @ ''.'' @ c) ! (?k + 1) = CHR ''t''" by simp
  show False
  proof (cases "?k < 5")
    case True
    with k have "?k = 1 \<or> ?k = 2 \<or> ?k = 3 \<or> ?k = 4" by arith
    then show False
    proof (elim disjE)
      assume "?k = 1" with lhs show False by simp
    next
      assume "?k = 2" with lhs show False by simp
    next
      assume "?k = 3" with lhs show False by simp
    next
      assume "?k = 4" with lhs show False by simp
    qed
  next
    case False
    then have k5: "?k + 1 = length ''-tidb-'' + (?k - 5)" by simp
    from len k have lt: "?k - 5 < length d1" by arith
    have "(''-tidb-'' @ d1 @ ''.'' @ c) ! (?k + 1) = (d1 @ ''.'' @ c) ! (?k - 5)"
      unfolding k5 by (rule nth_append_length_plus)
    also from lt have "\<dots> = d1 ! (?k - 5)" by (simp add: nth_append)
    finally have "d1 ! (?k - 5) = CHR ''t''" using lhs by simp
    with lt have "CHR ''t'' \<in> set d1" by (metis nth_mem)
    with t show False by simp
  qed
qed

lemma host_inj:
  assumes eq: "c1 @ ''-tidb-'' @ d1 @ ''.'' @ c1 = c2 @ ''-tidb-'' @ d2 @ ''.'' @ c2"
    and t1: "CHR ''t'' \<notin> set d1" and t2: "CHR ''t'' \<notin> set d2"
  shows "c1 = c2 \<and> d1 = d2"
proof -
  from eq have "\<exists>u.
     (c1 = c2 @ u \<and> u @ ''-tidb-'' @ d1 @ ''.'' @ c1 = ''-tidb-'' @ d2 @ ''.'' @ c2)
     \<or> (c1 @ u = c2 \<and> ''-tidb-'' @ d1 @ ''.'' @ c1 = u @ ''-tidb-'' @ d2 @ ''.'' @ c2)"
    by (rule append_eq_append_conv2 [THEN iffD1])
  then obtain u where
    "(c1 = c2 @ u \<and> u @ ''-tidb-'' @ d1 @ ''.'' @ c1 = ''-tidb-'' @ d2 @ ''.'' @ c2)
     \<or> (c1 @ u = c2 \<and> ''-tidb-'' @ d1 @ ''.'' @ c1 = u @ ''-tidb-'' @ d2 @ ''.'' @ c2)" ..
  then have c: "c1 = c2"
  proof
    assume a: "c1 = c2 @ u \<and> u @ ''-tidb-'' @ d1 @ ''.'' @ c1 = ''-tidb-'' @ d2 @ ''.'' @ c2"
    then have c1: "c1 = c2 @ u" ..
    from a have e1: "u @ ''-tidb-'' @ d1 @ ''.'' @ c1 = ''-tidb-'' @ d2 @ ''.'' @ c2" ..
    have "''-tidb-'' @ d2 @ ''.'' @ c2 = u @ ''-tidb-'' @ d1 @ ''.'' @ c2 @ u"
      using e1 [unfolded c1, symmetric] .
    then have "u = []" using t2 by (rule marker_shift)
    with c1 show ?thesis by simp
  next
    assume a: "c1 @ u = c2 \<and> ''-tidb-'' @ d1 @ ''.'' @ c1 = u @ ''-tidb-'' @ d2 @ ''.'' @ c2"
    then have c2: "c2 = c1 @ u" by simp
    from a have e2: "''-tidb-'' @ d1 @ ''.'' @ c1 = u @ ''-tidb-'' @ d2 @ ''.'' @ c2" ..
    have "''-tidb-'' @ d1 @ ''.'' @ c1 = u @ ''-tidb-'' @ d2 @ ''.'' @ c1 @ u"
      using e2 [unfolded c2] .
    then have "u = []" using t1 by (rule marker_shift)
    with c2 show ?thesis by simp
  qed
  with eq have "(d1 @ ''.'') @ c2 = (d2 @ ''.'') @ c2" by simp
  then have "d1 @ ''.'' = d2 @ ''.''" by (simp only: append_same_eq)
  then have "d1 = d2" by simp
  with c show ?thesis by simp
qed

lemma Scheme_cases: "Scheme tc = ''http'' \<or> Scheme tc = ''https''"
  by (simp add: Scheme_def)

lemma scheme_inj:
  assumes "s1 @ ''://'' @ x = s2 @ ''://'' @ y"
    and "s1 = ''http'' \<or> s1 = ''https''" and "s2 = ''http'' \<or> s2 = ''https''"
  shows "s1 = s2"
  using assms by auto

lemma getBaseURL_default:
  "testURL tdc = [] \<Longrightarrow>
   getBaseURL tdc tc ordinal =
     Scheme tc @ ''://'' @ (Name tc @ ''-tidb-'' @ FormatInt (sint ordinal) @ ''.'' @ Name tc)
       @ ''-tidb-peer.'' @ Namespace tc @ '':10080''"
  by (simp add: getBaseURL_def TiDBMemberName_def TiDBPeerMemberName_def Let_def)

lemma last_dot:
  assumes eq: "x @ CHR ''.'' # s = y @ CHR ''.'' # t"
    and s: "CHR ''.'' \<notin> set s" and t: "CHR ''.'' \<notin> set t"
  shows "s = t"
proof -
  from eq have "\<exists>u. (x = y @ u \<and> u @ CHR ''.'' # s = CHR ''.'' # t)
                \<or> (x @ u = y \<and> CHR ''.'' # s = u @ CHR ''.'' # t)"
    by (rule append_eq_append_conv2 [THEN iffD1])
  then obtain u where
    "(x = y @ u \<and> u @ CHR ''.'' # s = CHR ''.'' # t) \<or> (x @ u = y \<and> CHR ''.'' # s = u @ CHR ''.'' # t)" ..
  then show ?thesis
  proof
    assume a: "x = y @ u \<and> u @ CHR ''.'' # s = CHR ''.'' # t"
    show ?thesis
    proof (cases u)
      case Nil
      with a show ?thesis by simp
    next
      case (Cons c u')
      with a have "u' @ CHR ''.'' # s = t" by simp
      then have "CHR ''.'' \<in> set t" by auto
      with t show ?thesis by simp
    qed
  next
    assume a: "x @ u = y \<and> CHR ''.'' # s = u @ CHR ''.'' # t"
    show ?thesis
    proof (cases u)
      case Nil
      with a show ?thesis by simp
    next
      case (Cons c u')
      with a have "s = u' @ CHR ''.'' # t" by simp
      then have "CHR ''.'' \<in> set s" by auto
      with s show ?thesis by simp
    qed
  qed
qed

lemma getBaseURL_namespace:
  assumes "testURL tdc = []" and eq: "getBaseURL tdc tc1 o1 = getBaseURL tdc tc2 o2"
    and d1: "CHR ''.'' \<notin> set (Namespace tc1)" and d2: "CHR ''.'' \<notin> set (Namespace tc2)"
  shows "Namespace tc1 = Namespace tc2"
proof -
  let ?x1 = "Scheme tc1 @ ''://'' @ (Name tc1 @ ''-tidb-'' @ FormatInt (sint o1) @ ''.'' @ Name tc1) @ ''-tidb-peer''"
  let ?x2 = "Scheme tc2 @ ''://'' @ (Name tc2 @ ''-tidb-'' @ FormatInt (sint o2) @ ''.'' @ Name tc2) @ ''-tidb-peer''"
  from eq have "?x1 @ CHR ''.'' # (Namespace tc1 @ '':10080'') = ?x2 @ CHR ''.'' # (Namespace tc2 @ '':10080'')"
    unfolding getBaseURL_default [OF assms(1)] by simp
  moreover from d1 have "CHR ''.'' \<notin> set (Namespace tc1 @ '':10080'')" by simp
  moreover from d2 have "CHR ''.'' \<notin> set (Namespace tc2 @ '':10080'')" by simp
  ultimately have "Namespace tc1 @ '':10080'' = Namespace tc2 @ '':10080''"
    by (rule last_dot)
  then show ?thesis by simp
qed

lemma getBaseURL_inj:
  assumes "testURL tdc = []" and ns: "Namespace tc1 = Namespace tc2"
    and eq: "getBaseURL tdc tc1 o1 = getBaseURL tdc tc2 o2"
  shows "Name tc1 = Name tc2 \<and> o1 = o2 \<and> Scheme tc1 = Scheme tc2"
proof -
  let ?r1 = "Name tc1 @ ''-tidb-'' @ FormatInt (sint o1) @ ''.'' @ Name tc1"
  let ?r2 = "Name tc2 @ ''-tidb-'' @ FormatInt (sint o2) @ ''.'' @ Name tc2"
  let ?t = "''-tidb-peer.'' @ Namespace tc2 @ '':10080''"
  from eq have e: "Scheme tc1 @ ''://'' @ ?r1 @ ?t = Scheme tc2 @ ''://'' @ ?r2 @ ?t"
    unfolding getBaseURL_default [OF assms(1)] ns .
  from e Scheme_cases Scheme_cases have s: "Scheme tc1 = Scheme tc2"
    by (rule scheme_inj)
  from e have "''://'' @ ?r1 @ ?t = ''://'' @ ?r2 @ ?t"
    unfolding s by (simp only: same_append_eq)
  then have "?r1 @ ?t = ?r2 @ ?t"
    by (simp only: same_append_eq)
  then have r: "?r1 = ?r2" by (simp only: append_same_eq)
  have t1: "CHR ''t'' \<notin> set (FormatInt (sint o1))" using FormatInt_no_letter by blast
  have t2: "CHR ''t'' \<notin> set (FormatInt (sint o2))" using FormatInt_no_letter by blast
  from host_inj [OF r t1 t2] have n: "Name tc1 = Name tc2"
    and "FormatInt (sint o1) = FormatInt (sint o2)"
    by simp_all
  then have "sint o1 = sint o2" by (simp add: FormatInt_inj)
  then have "o1 = o2" by (rule signed_word_eqI)
  with n s show ?thesis by simp
qed

lemma ex_base_url:
  "getBaseURL ex_tdc ex_tc 1 = ''http://demo-tidb-1.demo-tidb-peer.default:10080''"
  by (simp add: getBaseURL_def ex_tdc_def ex_tc_def Scheme_def TiDBMemberName_def
      TiDBPeerMemberName_def FormatInt_def decimal_small digit_char_def)

text \<open>
  C5. Without a test URL, \<open>getBaseURL\<close> is a function of the cluster name, the
  namespace, the ordinal and the TLS posture alone, ending in port 10080; within one
  namespace (and across namespaces, as long as they contain no dot, as Kubernetes
  requires) clusters and ordinals with the same base URL are the same cluster name and
  the same ordinal; cluster \<open>demo\<close>, ordinal 1, namespace \<open>default\<close>, TLS disabled
  gives \<open>http://demo-tidb-1.demo-tidb-peer.default:10080\<close>.
\<close>

theorem C5_getBaseURL:
  "(testURL tdc = [] \<longrightarrow>
      getBaseURL tdc tc ordinal
        = (if IsTLSClusterEnabled tc then ''https'' else ''http'') @ ''://'' @ Name tc @ ''-tidb-''
            @ FormatInt (sint ordinal) @ ''.'' @ Name tc @ ''-tidb-peer.'' @ Namespace tc
            @ '':10080'')
   \<and> (testURL tdc = [] \<and> testURL tdc' = [] \<and> Name tc = Name tc' \<and> Namespace tc = Namespace tc'
        \<and> IsTLSClusterEnabled tc = IsTLSClusterEnabled tc' \<longrightarrow>
          getBaseURL tdc tc ordinal = getBaseURL tdc' tc' ordinal)
   \<and> (testURL tdc = [] \<and> getBaseURL tdc tcA ordinalA = getBaseURL tdc tcB ordinalB
        \<and> (Namespace tcA = Namespace tcB
            \<or> CHR ''.'' \<notin> set (Namespace tcA) \<and> CHR ''.'' \<notin> set (Namespace tcB)) \<longrightarrow>
          Name tcA = Name tcB \<and> ordinalA = ordinalB)
   \<and> getBaseURL ex_tdc ex_tc 1 = ''http://demo-tidb-1.demo-tidb-peer.default:10080''"
proof -
  have formula: "getBaseURL tdc tc ordinal
        = (if IsTLSClusterEnabled tc then ''https'' else ''http'') @ ''://'' @ Name tc @ ''-tidb-''
            @ FormatInt (sint ordinal) @ ''.'' @ Name tc @ ''-tidb-peer.'' @ Namespace tc
            @ '':10080''"
    if "testURL tdc = []" for tdc tc ordinal
    using that by (simp add: getBaseURL_default Scheme_def)
  have pure: "getBaseURL tdc tc ordinal = getBaseURL tdc' tc' ordinal"
    if "testURL tdc = []" "testURL tdc' = []" "Name tc = Name tc'" "Namespace tc = Namespace tc'"
      "IsTLSClusterEnabled tc = IsTLSClusterEnabled tc'"
    using that by (simp only: formula)
  have inj: "Name tcA = Name tcB \<and> ordinalA = ordinalB"
    if t: "testURL tdc = []" and eq: "getBaseURL tdc tcA ordinalA = getBaseURL tdc tcB ordinalB"
      and ns: "Namespace tcA = Namespace tcB
            \<or> CHR ''.'' \<notin> set (Namespace tcA) \<and> CHR ''.'' \<notin> set (Namespace tcB)"
  proof -
    from ns have "Namespace tcA = Namespace tcB"
    proof
      assume "Namespace tcA = Namespace tcB" then show ?thesis .
    next
      assume "CHR ''.'' \<notin> set (Namespace tcA) \<and> CHR ''.'' \<notin> set (Namespace tcB)"
      with t eq show ?thesis by (intro getBaseURL_namespace) simp_all
    qed
    with t eq show ?thesis using getBaseURL_inj [of tdc tcA tcB ordinalA ordinalB] by simp
  qed
  from formula pure inj ex_base_url show ?thesis by blast
qed

theorem C5_getBaseURL_witness:
  "getBaseURL ex_tdc ex_tc 2 = ''http://demo-tidb-2.demo-tidb-peer.default:10080''
   \<and> getBaseURL ex_tdc ex_tc_tls 1 = ''https://demo-tidb-1.demo-tidb-peer.default:10080''
   \<and> getBaseURL ex_tdc ex_tc 1 \<noteq> getBaseURL ex_tdc ex_tc 2"
proof -
  have t: "testURL ex_tdc = []" by (simp add: ex_tdc_def)
  have f: "FormatInt (sint (2 :: 32 word)) = ''2''" "FormatInt (sint (1 :: 32 word)) = ''1''"
    by (simp_all add: FormatInt_def decimal_small digit_char_def)
  note c5 = C5_getBaseURL [where tdc = ex_tdc and tdc' = ex_tdc and tc' = ex_tc
      and tcA = ex_tc and tcB = ex_tc and ordinalA = 1 and ordinalB = 2]
  from c5 [where tc = ex_tc and ordinal = 2] t f
  have a: "getBaseURL ex_tdc ex_tc 2 = ''http://demo-tidb-2.demo-tidb-peer.default:10080''"
    by (simp add: ex_tc_def)
  from c5 [where tc = ex_tc_tls and ordinal = 1] t f
  have b: "getBaseURL ex_tdc ex_tc_tls 1 = ''https://demo-tidb-1.demo-tidb-peer.default:10080''"
    by (simp add: ex_tc_def ex_tc_tls_def)
  have "(1 :: 32 word) \<noteq> 2" by simp
  with c5 [where tc = ex_tc and ordinal = 1] t
  have c: "getBaseURL ex_tdc ex_tc 1 \<noteq> getBaseURL ex_tdc ex_tc 2" by blast
  from a b c show ?thesis by simp
qed

lemma getHTTPClient_plain:
  "\<not> IsTLSClusterEnabled tc \<Longrightarrow>
   getHTTPClient w tdc tc = (Inr \<lparr>Timeout = timeout, Transport = None\<rparr>, [])"
  by (simp add: getHTTPClient_def)

lemma getHTTPClient_missing:
  assumes "IsTLSClusterEnabled tc"
    and "kubeCli_Secrets_Get tdc (Namespace tc) (ClusterClientTLSSecretName w (Name tc)) = Inr secret"
    and "Data secret (TLSCertKey w) = None \<or> Data secret (TLSPrivateKeyKey w) = None"
  shows "getHTTPClient w tdc tc =
    (Inl (Errorf (''cert or key does not exist in secret '' @ Namespace tc @ ''/''
                  @ ClusterClientTLSSecretName w (Name tc))),
     [SecretsGet (Namespace tc) (ClusterClientTLSSecretName w (Name tc))])"
  using assms by (auto simp: getHTTPClient_def Let_def lookup_def split: option.splits)

lemma GetHealth_result:
  assumes "fst (getHTTPClient w tdc tc) = Inr httpClient"
  shows "fst (GetHealth w tdc tc ordinal) =
    (case fst (getBodyOK w httpClient (getBaseURL tdc tc ordinal @ ''/status'')) of
       Inl err \<Rightarrow> (False, None) | Inr body \<Rightarrow> (True, None))"
proof -
  from assms obtain t where "getHTTPClient w tdc tc = (Inr httpClient, t)"
    by (cases "getHTTPClient w tdc tc") simp
  then show ?thesis
    by (simp add: GetHealth_def Let_def split: prod.splits sum.splits)
qed

lemma getBodyOK_result:
  "fst (getBodyOK w httpClient url) =
    (case fst (http_Get w httpClient url) of
       Inl err \<Rightarrow> Inl err
     | Inr res \<Rightarrow>
         if StatusCode res \<ge> 400
         then Inl (Errorf_format (fmt_verbs w)
                (''Error response '' @ FormatInt (StatusCode res) @ '' URL '' @ url))
         else Body res)"
  by (simp add: getBodyOK_def split: prod.splits sum.splits)

text \<open>
  C6 (as amended). Once the HTTP client is built (always, when the cluster does not
  use TLS), \<open>GetHealth\<close> returns no error, and it returns \<open>true\<close> exactly when the
  request to the status endpoint yields a response with a status code below 400 whose
  body is read to the end; a transport failure and a response of 400 or above both give
  \<open>false\<close> with a \<open>nil\<close> error. When the client cannot be built, \<open>GetHealth\<close>
  returns \<open>false\<close> together with the error of \<open>getHTTPClient\<close>.
\<close>

theorem C6_GetHealth:
  "(fst (getHTTPClient w tdc tc) = Inr httpClient \<longrightarrow>
      snd (fst (GetHealth w tdc tc ordinal)) = None
      \<and> (fst (fst (GetHealth w tdc tc ordinal)) \<longleftrightarrow>
           (\<exists>res body.
              fst (http_Get w httpClient (getBaseURL tdc tc ordinal @ ''/status'')) = Inr res
              \<and> StatusCode res < 400 \<and> Body res = Inr body))
      \<and> (\<forall>err. fst (http_Get w httpClient (getBaseURL tdc tc ordinal @ ''/status'')) = Inl err
             \<longrightarrow> fst (GetHealth w tdc tc ordinal) = (False, None))
      \<and> (\<forall>res. fst (http_Get w httpClient (getBaseURL tdc tc ordinal @ ''/status'')) = Inr res
               \<and> StatusCode res \<ge> 400
             \<longrightarrow> fst (GetHealth w tdc tc ordinal) = (False, None)))
   \<and> (\<not> IsTLSClusterEnabled tc \<longrightarrow> snd (fst (GetHealth w tdc tc ordinal)) = None)
   \<and> (fst (getHTTPClient w tdc tc) = Inl e \<longrightarrow>
        GetHealth w tdc tc ordinal = ((False, Some e), snd (getHTTPClient w tdc tc)))"
proof -
  have built: "snd (fst (GetHealth w tdc tc ordinal)) = None
      \<and> (fst (fst (GetHealth w tdc tc ordinal)) \<longleftrightarrow>
           (\<exists>res body.
              fst (http_Get w httpClient (getBaseURL tdc tc ordinal @ ''/status'')) = Inr res
              \<and> StatusCode res < 400 \<and> Body res = Inr body))
      \<and> (\<forall>err. fst (http_Get w httpClient (getBaseURL tdc tc ordinal @ ''/status'')) = Inl err
             \<longrightarrow> fst (GetHealth w tdc tc ordinal) = (False, None))
      \<and> (\<forall>res. fst (http_Get w httpClient (getBaseURL tdc tc ordinal @ ''/status'')) = Inr res
               \<and> StatusCode res \<ge> 400
             \<longrightarrow> fst (GetHealth w tdc tc ordinal) = (False, None))"
    if "fst (getHTTPClient w tdc tc) = Inr httpClient" for httpClient
    unfolding GetHealth_result [OF that] getBodyOK_result
    by (auto split: sum.splits)
  have plain: "snd (fst (GetHealth w tdc tc ordinal)) = None" if "\<not> IsTLSClusterEnabled tc"
    using built [of "\<lparr>Timeout = timeout, Transport = None\<rparr>"] that
    by (simp add: getHTTPClient_plain)
  have refused: "GetHealth w tdc tc ordinal = ((False, Some e), snd (getHTTPClient w tdc tc))"
    if "fst (getHTTPClient w tdc tc) = Inl e"
  proof -
    from that obtain t where "getHTTPClient w tdc tc = (Inl e, t)"
      by (cases "getHTTPClient w tdc tc") simp
    then show ?thesis by (simp add: GetHealth_def)
  qed
  from built plain refused show ?thesis by blast
qed

theorem C6_GetHealth_witness:
  "fst (GetHealth ex_env ex_tdc ex_tc 1) = (False, None)
   \<and> fst (GetHealth ex_env_ok ex_tdc ex_tc 1) = (True, None)"
proof -
  let ?c = "\<lparr>Timeout = timeout, Transport = None\<rparr>"
  let ?url = "getBaseURL ex_tdc ex_tc 1 @ ''/status''"
  have c: "fst (getHTTPClient w ex_tdc ex_tc) = Inr ?c" for w :: "string env"
    by (simp add: getHTTPClient_plain ex_tc_def)
  have bad: "fst (http_Get ex_env ?c ?url) = Inr \<lparr>StatusCode = 503, Body = Inr ''unavailable''\<rparr>"
    by (simp add: http_Get_def NewRequest_def ex_env_def)
  have ok: "fst (http_Get ex_env_ok ?c ?url) = Inr \<lparr>StatusCode = 200, Body = Inr ''ok''\<rparr>"
    by (simp add: http_Get_def NewRequest_def ex_env_ok_def ex_env_def)
  from C6_GetHealth [of ex_env ex_tdc ex_tc ?c 1] c bad
  have a: "fst (GetHealth ex_env ex_tdc ex_tc 1) = (False, None)" by simp
  from C6_GetHealth [of ex_env_ok ex_tdc ex_tc ?c 1] c ok
  have b: "fst (GetHealth ex_env_ok ex_tdc ex_tc 1) = (True, None)"
    by (simp add: prod_eq_iff)
  from a b show ?thesis by simp
qed

text \<open>
  C6 as stated fails: the cluster uses mutual TLS, the secret lacks the private key,
  and the server would answer any request with status 200. \<open>GetHealth\<close> sends no
  request and returns \<open>false\<close> together with an error.
\<close>

theorem C6_counterexample:
  "Do ex_env_ok \<lparr>Timeout = timeout, Transport = None\<rparr>
      \<lparr>Method = ''GET'', URL = getBaseURL ex_tdc ex_tc_tls 1 @ ''/status''\<rparr>
     = Inr \<lparr>StatusCode = 200, Body = Inr ''ok''\<rparr>
   \<and> GetHealth ex_env_ok ex_tdc ex_tc_tls 1 =
      ((False, Some (Errorf ''cert or key does not exist in secret default/demo-cluster-client-secret'')),
       [SecretsGet ''default'' ''demo-cluster-client-secret''])
   \<and> snd (fst (GetHealth ex_env_ok ex_tdc ex_tc_tls 1)) \<noteq> None"
proof -
  let ?secret = "\<lparr>Data = [''tls.crt'' \<mapsto> ''cert'', ''ca.crt'' \<mapsto> ''ca'']\<rparr>"
  have 1: "IsTLSClusterEnabled ex_tc_tls" by (simp add: ex_tc_tls_def)
  have 2: "kubeCli_Secrets_Get ex_tdc (Namespace ex_tc_tls)
             (ClusterClientTLSSecretName ex_env_ok (Name ex_tc_tls)) = Inr ?secret"
    by (simp add: ex_tdc_def)
  have 3: "Data ?secret (TLSCertKey ex_env_ok) = None
           \<or> Data ?secret (TLSPrivateKeyKey ex_env_ok) = None"
    by (simp add: ex_env_ok_def ex_env_def)
  have g: "GetHealth ex_env_ok ex_tdc ex_tc_tls 1 =
      ((False, Some (Errorf ''cert or key does not exist in secret default/demo-cluster-client-secret'')),
       [SecretsGet ''default'' ''demo-cluster-client-secret''])"
    unfolding GetHealth_def getHTTPClient_missing [OF 1 2 3]
    by (simp add: ex_tc_tls_def ex_tc_def ex_env_ok_def ex_env_def)
  have d: "Do ex_env_ok c req = Inr \<lparr>StatusCode = 200, Body = Inr ''ok''\<rparr>" for c req
    by (simp add: ex_env_ok_def)
  from g d show ?thesis by simp
qed














text \<open>
  C8. On a cluster with mutual TLS whose secret is fetched but lacks the client
  certificate or the private key, \<open>GetHealth\<close>, \<open>GetInfo\<close> and \<open>GetSettings\<close> fail with
  the error \<open>cert or key does not exist in secret\<close>, after one lookup of the secret
  and without sending any HTTP request.
\<close>

theorem C8_missing_credential:
  assumes "IsTLSClusterEnabled tc"
    and "kubeCli_Secrets_Get tdc (Namespace tc) (ClusterClientTLSSecretName w (Name tc)) = Inr secret"
    and "Data secret (TLSCertKey w) = None \<or> Data secret (TLSPrivateKeyKey w) = None"
  shows "GetHealth w tdc tc ordinal =
      ((False, Some (Errorf (''cert or key does not exist in secret '' @ Namespace tc @ ''/''
                             @ ClusterClientTLSSecretName w (Name tc)))),
       [SecretsGet (Namespace tc) (ClusterClientTLSSecretName w (Name tc))])
    \<and> GetInfo w tdc tc ordinal =
      ((None, Some (Errorf (''cert or key does not exist in secret '' @ Namespace tc @ ''/''
                             @ ClusterClientTLSSecretName w (Name tc)))),
       [SecretsGet (Namespace tc) (ClusterClientTLSSecretName w (Name tc))])
    \<and> GetSettings w tdc tc ordinal =
      ((None, Some (Errorf (''cert or key does not exist in secret '' @ Namespace tc @ ''/''
                             @ ClusterClientTLSSecretName w (Name tc)))),
       [SecretsGet (Namespace tc) (ClusterClientTLSSecretName w (Name tc))])"
  unfolding GetHealth_def GetInfo_def GetSettings_def getHTTPClient_missing [OF assms]
  by simp

theorem C8_missing_credential_witness:
  "GetHealth ex_env ex_tdc ex_tc_tls 1 =
     ((False, Some (Errorf ''cert or key does not exist in secret default/demo-cluster-client-secret'')),
      [SecretsGet ''default'' ''demo-cluster-client-secret''])
   \<and> GetInfo ex_env ex_tdc ex_tc_tls 1 =
     ((None, Some (Errorf ''cert or key does not exist in secret default/demo-cluster-client-secret'')),
      [SecretsGet ''default'' ''demo-cluster-client-secret''])"
proof -
  let ?secret = "\<lparr>Data = [''tls.crt'' \<mapsto> ''cert'', ''ca.crt'' \<mapsto> ''ca'']\<rparr>"
  have 1: "IsTLSClusterEnabled ex_tc_tls" by (simp add: ex_tc_tls_def)
  have 2: "kubeCli_Secrets_Get ex_tdc (Namespace ex_tc_tls)
             (ClusterClientTLSSecretName ex_env (Name ex_tc_tls)) = Inr ?secret"
    by (simp add: ex_tdc_def)
  have 3: "Data ?secret (TLSCertKey ex_env) = None \<or> Data ?secret (TLSPrivateKeyKey ex_env) = None"
    by (simp add: ex_env_def)
  from C8_missing_credential [OF 1 2 3, of 1] show ?thesis
    by (simp add: ex_tc_tls_def ex_tc_def ex_env_def)
qed

lemma getBodyOK_no_release:
  assumes "fst (http_Get w httpClient url) = Inr res" and "StatusCode res \<ge> 400"
  shows "Released \<notin> set (snd (getBodyOK w httpClient url))
       \<and> ReadAll \<notin> set (snd (getBodyOK w httpClient url))"
  using assms
  by (auto simp: getBodyOK_def http_Get_def split: sum.splits prod.splits)

lemma GetInfo_releases:
  assumes "fst (getHTTPClient w tdc tc) = Inr httpClient"
    and "NewRequest_error w ''POST'' (getBaseURL tdc tc ordinal @ ''/info'') = None"
    and "Do w httpClient \<lparr>Method = ''POST'', URL = getBaseURL tdc tc ordinal @ ''/info''\<rparr> = Inr res"
  shows "Released \<in> set (snd (GetInfo w tdc tc ordinal))"
proof -
  from assms(1) obtain t where "getHTTPClient w tdc tc = (Inr httpClient, t)"
    by (cases "getHTTPClient w tdc tc") simp
  with assms(2,3) show ?thesis
    by (simp add: GetInfo_def NewRequest_def Let_def DeferClose_def split: sum.splits)
qed

lemma GetSettings_releases:
  assumes "fst (getHTTPClient w tdc tc) = Inr httpClient"
    and "NewRequest_error w ''GET'' (getBaseURL tdc tc ordinal @ ''/settings'') = None"
    and "Do w httpClient \<lparr>Method = ''GET'', URL = getBaseURL tdc tc ordinal @ ''/settings''\<rparr> = Inr res"
  shows "Released \<in> set (snd (GetSettings w tdc tc ordinal))"
proof -
  from assms(1) obtain t where "getHTTPClient w tdc tc = (Inr httpClient, t)"
    by (cases "getHTTPClient w tdc tc") simp
  with assms(2,3) show ?thesis
    by (simp add: GetSettings_def NewRequest_def Let_def DeferClose_def split: sum.splits)
qed

text \<open>
  C9 fails on \<open>getBodyOK\<close>. The server answers the status request with code 503:
  \<open>GetHealth\<close> returns \<open>false\<close> after sending the request, and neither reads nor
  releases the body of the response it received, since \<open>getBodyOK\<close> returns on a status
  of 400 or above before it registers the deferred release. \<open>GetSettings\<close>, against
  the same server and the same status, does release the body.
\<close>

theorem C9_getBodyOK_leaves_body_open:
  "GetHealth ex_env ex_tdc ex_tc 1 =
     ((False, None),
      [Sent \<lparr>Method = ''GET'',
             URL = ''http://demo-tidb-1.demo-tidb-peer.default:10080/status''\<rparr>])
   \<and> Released \<notin> set (snd (GetHealth ex_env ex_tdc ex_tc 1))
   \<and> snd (GetSettings ex_env ex_tdc ex_tc 1) =
       [Sent \<lparr>Method = ''GET'',
              URL = ''http://demo-tidb-1.demo-tidb-peer.default:10080/settings''\<rparr>,
        Released]"
proof -
  have c: "getHTTPClient ex_env ex_tdc ex_tc = (Inr \<lparr>Timeout = timeout, Transport = None\<rparr>, [])"
    by (simp add: getHTTPClient_plain ex_tc_def)
  have h: "GetHealth ex_env ex_tdc ex_tc 1 =
     ((False, None),
      [Sent \<lparr>Method = ''GET'',
             URL = ''http://demo-tidb-1.demo-tidb-peer.default:10080/status''\<rparr>])"
    unfolding GetHealth_def c
    by (simp add: ex_base_url getBodyOK_def http_Get_def NewRequest_def ex_env_def DeferClose_def)
  have s: "snd (GetSettings ex_env ex_tdc ex_tc 1) =
       [Sent \<lparr>Method = ''GET'',
              URL = ''http://demo-tidb-1.demo-tidb-peer.default:10080/settings''\<rparr>,
        Released]"
    unfolding GetSettings_def c
    by (simp add: ex_base_url NewRequest_def ex_env_def StatusOK_def Let_def DeferClose_def)
  from h s show ?thesis by simp
qed

section \<open>Properties of the updater\<close>

subsection \<open>One attempt\<close>
lemma attempt_success:
  assumes "cli_Update rtc (length (writes s)) ns (heap s (tg s)) = (r, None)"
  shows "attempt rtc ns name status s =
    (None, s\<lparr>updateTg := r, writes := writes s @ [heap s (tg s)],
              logs := logs s @ [Infof (''TiKVGroup: ['' @ ns @ ''/'' @ name @ ''] updated successfully'')]\<rparr>)"
  using assms by (simp add: attempt_def)

lemma attempt_lookup_failed:
  assumes "cli_Update rtc (length (writes s)) ns (heap s (tg s)) = (r, Some e)"
    and "tgLister_Get rtc (length (fetched s)) ns name = Inl err"
  shows "attempt rtc ns name status s =
    (Some e, s\<lparr>updateTg := r, writes := writes s @ [heap s (tg s)],
                fetched := fetched s @ [Inl err],
                logs := logs s @
                  [Warningf (''failed to update TiKVGroup: ['' @ ns @ ''/'' @ name
                             @ ''], error: '' @ Error e),
                   HandleError (Errorf (''error getting updated TiKVGroup '' @ ns @ ''/''
                           @ name @ '' from lister: '' @ Error err))]\<rparr>)"
  using assms by (simp add: attempt_def)

lemma attempt_refetched:
  assumes "cli_Update rtc (length (writes s)) ns (heap s (tg s)) = (r, Some e)"
    and "tgLister_Get rtc (length (fetched s)) ns name = Inr a"
  shows "attempt rtc ns name status s =
    (Some e, s\<lparr>heap := (heap s)(next_addr s := (heap s a)\<lparr>Status := status\<rparr>),
                next_addr := Suc (next_addr s), tg := next_addr s,
                updateTg := r, writes := writes s @ [heap s (tg s)],
                fetched := fetched s @ [Inr a],
                logs := logs s @
                  [Warningf (''failed to update TiKVGroup: ['' @ ns @ ''/'' @ name
                             @ ''], error: '' @ Error e)]\<rparr>)"
  using assms by (simp add: attempt_def DeepCopy_def)

lemma attempt_cases:
  obtains (success) r where "cli_Update rtc (length (writes s)) ns (heap s (tg s)) = (r, None)"
  | (lookup_failed) r e err where "cli_Update rtc (length (writes s)) ns (heap s (tg s)) = (r, Some e)"
      "tgLister_Get rtc (length (fetched s)) ns name = Inl err"
  | (refetched) r e a where "cli_Update rtc (length (writes s)) ns (heap s (tg s)) = (r, Some e)"
      "tgLister_Get rtc (length (fetched s)) ns name = Inr a"
proof (cases "cli_Update rtc (length (writes s)) ns (heap s (tg s))")
  case (Pair r x)
  show thesis
  proof (cases x)
    case None
    with Pair success show thesis by simp
  next
    case (Some e)
    show thesis
    proof (cases "tgLister_Get rtc (length (fetched s)) ns name")
      case (Inl err)
      with Pair Some lookup_failed show thesis by simp
    next
      case (Inr a)
      with Pair Some refetched show thesis by simp
    qed
  qed
qed

lemma attempt_writes:
  "writes (snd (attempt rtc ns name status s)) = writes s @ [heap s (tg s)]"
  by (cases rule: attempt_cases [where rtc=rtc and s=s and ns=ns and name=name])
     (simp_all add: attempt_success attempt_lookup_failed attempt_refetched)

lemma attempt_err:
  "fst (attempt rtc ns name status s) = snd (cli_Update rtc (length (writes s)) ns (heap s (tg s)))"
  by (cases rule: attempt_cases [where rtc=rtc and s=s and ns=ns and name=name])
     (simp_all add: attempt_success attempt_lookup_failed attempt_refetched)

lemma attempt_updateTg:
  "updateTg (snd (attempt rtc ns name status s)) = fst (cli_Update rtc (length (writes s)) ns (heap s (tg s)))"
  by (cases rule: attempt_cases [where rtc=rtc and s=s and ns=ns and name=name])
     (simp_all add: attempt_success attempt_lookup_failed attempt_refetched)

lemma attempt_old_heap:
  "b < next_addr s \<Longrightarrow> heap (snd (attempt rtc ns name status s)) b = heap s b"
  by (cases rule: attempt_cases [where rtc=rtc and s=s and ns=ns and name=name])
     (simp_all add: attempt_success attempt_lookup_failed attempt_refetched)

lemma attempt_next_addr:
  "next_addr s \<le> next_addr (snd (attempt rtc ns name status s))"
  by (cases rule: attempt_cases [where rtc=rtc and s=s and ns=ns and name=name])
     (simp_all add: attempt_success attempt_lookup_failed attempt_refetched)

lemma working_object_Suc_Inl:
  "tgLister_Get rtc k (Namespace (h tgp)) (Name (h tgp)) = Inl err
     \<Longrightarrow> working_object rtc h tgp (Suc k) = working_object rtc h tgp k"
  by (simp add: working_object_def)

lemma working_object_Suc_Inr:
  "tgLister_Get rtc k (Namespace (h tgp)) (Name (h tgp)) = Inr a
     \<Longrightarrow> working_object rtc h tgp (Suc k) = (h a)\<lparr>Status := Status (h tgp)\<rparr>"
  by (simp add: working_object_def)

lemma attempt_loop_inv:
  assumes b: "loop_inv rtc h nxt tgp s" and v: "lister_valid rtc h nxt tgp"
    and f: "fst (attempt rtc (Namespace (h tgp)) (Name (h tgp)) (Status (h tgp)) s) \<noteq> None"
  shows "loop_inv rtc h nxt tgp (snd (attempt rtc (Namespace (h tgp)) (Name (h tgp)) (Status (h tgp)) s))"
proof (cases rule: attempt_cases [where rtc=rtc and s=s and ns="Namespace (h tgp)" and name="Name (h tgp)"])
  case (success r)
  with f show ?thesis by (simp add: attempt_success)
next
  case (lookup_failed r e err)
  from lookup_failed(2) b have "working_object rtc h tgp (Suc (length (writes s))) = working_object rtc h tgp (length (writes s))"
    by (simp add: working_object_Suc_Inl loop_inv_def)
  with b show ?thesis
    by (simp add: attempt_lookup_failed [OF lookup_failed] loop_inv_def)
next
  case (refetched r e a)
  from refetched(2) v have a: "a < nxt" by (auto simp: lister_valid_def)
  from refetched(2) b have "working_object rtc h tgp (Suc (length (writes s))) = (h a)\<lparr>Status := Status (h tgp)\<rparr>"
    by (simp add: working_object_Suc_Inr loop_inv_def)
  with b a show ?thesis
    by (simp add: attempt_refetched [OF refetched] loop_inv_def)
qed

lemma attempt_status:
  assumes "Status (heap s (tg s)) = status"
  shows "Status (heap (snd (attempt rtc ns name status s)) (tg (snd (attempt rtc ns name status s)))) = status"
  using assms
  by (cases rule: attempt_cases [where rtc=rtc and s=s and ns=ns and name=name])
     (simp_all add: attempt_success attempt_lookup_failed attempt_refetched)

lemma retry_status:
  assumes "Status (heap s (tg s)) = status" and "\<forall>w\<in>set (writes s). Status w = status"
  shows "\<forall>w\<in>set (writes (snd (RetryOnConflict n (attempt rtc ns name status) l s))). Status w = status"
  using assms
proof (induction n arbitrary: s l)
  case 0
  then show ?case by simp
next
  case (Suc n)
  let ?s' = "snd (attempt rtc ns name status s)"
  have 1: "Status (heap ?s' (tg ?s')) = status"
    using Suc.prems(1) by (rule attempt_status)
  have 2: "\<forall>w\<in>set (writes ?s'). Status w = status"
    using Suc.prems by (simp add: attempt_writes)
  show ?case
  proof (cases "attempt rtc ns name status s")
    case (Pair x s')
    with 1 2 have s': "Status (heap s' (tg s')) = status" "\<forall>w\<in>set (writes s'). Status w = status"
      by simp_all
    show ?thesis
    proof (cases x)
      case None
      with Pair s' show ?thesis by simp
    next
      case (Some e)
      with Pair s' Suc.IH [OF s', of "Some e"] show ?thesis by simp
    qed
  qed
qed

lemma retry_writes_bound:
  "length (writes (snd (RetryOnConflict n (attempt rtc ns name status) l s))) \<le> length (writes s) + n"
proof (induction n arbitrary: s l)
  case 0
  then show ?case by simp
next
  case (Suc n)
  show ?case
  proof (cases "attempt rtc ns name status s")
    case (Pair x s')
    then have len: "length (writes s') = Suc (length (writes s))"
      using attempt_writes [of rtc ns name status s] by simp
    show ?thesis
    proof (cases x)
      case None
      with Pair len show ?thesis by simp
    next
      case (Some e)
      with Pair len Suc.IH [of "Some e" s'] show ?thesis by simp
    qed
  qed
qed

lemma retry_old_heap:
  "b < next_addr s \<Longrightarrow> heap (snd (RetryOnConflict n (attempt rtc ns name status) l s)) b = heap s b"
proof (induction n arbitrary: s l)
  case 0
  then show ?case by simp
next
  case (Suc n)
  show ?case
  proof (cases "attempt rtc ns name status s")
    case (Pair x s')
    then have s': "s' = snd (attempt rtc ns name status s)" by simp
    have h: "heap s' b = heap s b"
      unfolding s' using Suc.prems by (rule attempt_old_heap)
    have "next_addr s \<le> next_addr s'"
      unfolding s' by (rule attempt_next_addr)
    with Suc.prems have b: "b < next_addr s'" by simp
    show ?thesis
    proof (cases x)
      case None
      with Pair h show ?thesis by simp
    next
      case (Some e)
      with Pair h Suc.IH [OF b, of "Some e"] show ?thesis by simp
    qed
  qed
qed

lemma retry_stops:
  assumes "length (writes s) \<le> k" and "k < length (writes s) + n"
    and "\<forall>i obj. length (writes s) \<le> i \<and> i < k \<longrightarrow> is_conflict (snd (cli_Update rtc i ns obj))"
    and "\<forall>obj. \<not> is_conflict (snd (cli_Update rtc k ns obj))"
  shows "fst (RetryOnConflict n (attempt rtc ns name status) l s)
           = snd (cli_Update rtc k ns (last (writes (snd (RetryOnConflict n (attempt rtc ns name status) l s)))))
       \<and> updateTg (snd (RetryOnConflict n (attempt rtc ns name status) l s))
           = fst (cli_Update rtc k ns (last (writes (snd (RetryOnConflict n (attempt rtc ns name status) l s)))))
       \<and> length (writes (snd (RetryOnConflict n (attempt rtc ns name status) l s))) = Suc k"
  using assms
proof (induction n arbitrary: s l)
  case 0
  then show ?case by simp
next
  case (Suc n)
  show ?case
  proof (cases "attempt rtc ns name status s")
    case (Pair x s')
    with attempt_err [of rtc ns name status s] attempt_updateTg [of rtc ns name status s]
      attempt_writes [of rtc ns name status s]
    have x: "x = snd (cli_Update rtc (length (writes s)) ns (heap s (tg s)))"
      and u: "updateTg s' = fst (cli_Update rtc (length (writes s)) ns (heap s (tg s)))"
      and w: "writes s' = writes s @ [heap s (tg s)]"
      by simp_all
    show ?thesis
    proof (cases "length (writes s) = k")
      case True
      with x Suc.prems(4) have nc: "\<not> is_conflict x" by simp
      show ?thesis
      proof (cases x)
        case None
        with Pair x u w True show ?thesis by simp
      next
        case (Some e)
        with nc have "\<not> IsConflict e" by simp
        with Pair Some x u w True show ?thesis by simp
      qed
    next
      case False
      with Suc.prems(1) have lt: "length (writes s) < k" by simp
      with Suc.prems(3) x have "is_conflict x" by simp
      then obtain e where e: "x = Some e" "IsConflict e" by (cases x) simp_all
      from w have len: "length (writes s') = Suc (length (writes s))" by simp
      let ?r = "RetryOnConflict n (attempt rtc ns name status) (Some e) s'"
      have "fst ?r = snd (cli_Update rtc k ns (last (writes (snd ?r))))
          \<and> updateTg (snd ?r) = fst (cli_Update rtc k ns (last (writes (snd ?r))))
          \<and> length (writes (snd ?r)) = Suc k"
        using lt Suc.prems(2,3,4) len by (intro Suc.IH) simp_all
      with Pair e show ?thesis by simp
    qed
  qed
qed

lemma retry_exhausts:
  assumes "\<forall>i obj. length (writes s) \<le> i \<and> i < length (writes s) + n
             \<longrightarrow> is_conflict (snd (cli_Update rtc i ns obj))"
  shows "fst (RetryOnConflict n (attempt rtc ns name status) l s)
           = (if n = 0 then l
              else snd (cli_Update rtc (length (writes s) + n - 1) ns
                     (last (writes (snd (RetryOnConflict n (attempt rtc ns name status) l s))))))
       \<and> length (writes (snd (RetryOnConflict n (attempt rtc ns name status) l s)))
           = length (writes s) + n"
  using assms
proof (induction n arbitrary: s l)
  case 0
  then show ?case by simp
next
  case (Suc n)
  show ?case
  proof (cases "attempt rtc ns name status s")
    case (Pair x s')
    with attempt_err [of rtc ns name status s] attempt_writes [of rtc ns name status s]
    have x: "x = snd (cli_Update rtc (length (writes s)) ns (heap s (tg s)))"
      and w: "writes s' = writes s @ [heap s (tg s)]"
      by simp_all
    from Suc.prems x have "is_conflict x" by simp
    then obtain e where e: "x = Some e" "IsConflict e" by (cases x) simp_all
    from w have len: "length (writes s') = Suc (length (writes s))" by simp
    let ?r = "RetryOnConflict n (attempt rtc ns name status) (Some e) s'"
    have "fst ?r = (if n = 0 then Some e
              else snd (cli_Update rtc (length (writes s') + n - 1) ns (last (writes (snd ?r)))))
       \<and> length (writes (snd ?r)) = length (writes s') + n"
      using Suc.prems len by (intro Suc.IH) simp_all
    with Pair e x w len show ?thesis by (cases n) simp_all
  qed
qed

lemma retry_writes_mono:
  "length (writes s) \<le> length (writes (snd (RetryOnConflict n (attempt rtc ns name status) l s)))"
proof (induction n arbitrary: s l)
  case 0
  then show ?case by simp
next
  case (Suc n)
  show ?case
  proof (cases "attempt rtc ns name status s")
    case (Pair x s')
    with attempt_writes [of rtc ns name status s]
    have len: "length (writes s') = Suc (length (writes s))" by simp
    show ?thesis
    proof (cases x)
      case None
      with Pair len show ?thesis by simp
    next
      case (Some e)
      with Pair len Suc.IH [of s' "Some e"] show ?thesis by simp
    qed
  qed
qed

lemma retry_reaches:
  assumes "m < n"
    and "\<forall>i obj. length (writes s) \<le> i \<and> i < length (writes s) + m
             \<longrightarrow> is_conflict (snd (cli_Update rtc i ns obj))"
  shows "length (writes s) + m
           < length (writes (snd (RetryOnConflict n (attempt rtc ns name status) l s)))"
  using assms
proof (induction n arbitrary: s l m)
  case 0
  then show ?case by simp
next
  case (Suc n)
  show ?case
  proof (cases "attempt rtc ns name status s")
    case (Pair x s')
    with attempt_err [of rtc ns name status s] attempt_writes [of rtc ns name status s]
    have x: "x = snd (cli_Update rtc (length (writes s)) ns (heap s (tg s)))"
      and w: "writes s' = writes s @ [heap s (tg s)]"
      by simp_all
    from w have len: "length (writes s') = Suc (length (writes s))" by simp
    show ?thesis
    proof (cases m)
      case 0
      show ?thesis
      proof (cases x)
        case None
        with Pair len 0 show ?thesis by simp
      next
        case (Some e)
        with Pair len 0 retry_writes_mono [of s' n rtc ns name status "Some e"]
        show ?thesis by simp
      qed
    next
      case (Suc m')
      with Suc.prems(2) x have "is_conflict x" by simp
      then obtain e where e: "x = Some e" "IsConflict e" by (cases x) simp_all
      have "length (writes s') + m'
           < length (writes (snd (RetryOnConflict n (attempt rtc ns name status) (Some e) s')))"
        using Suc.prems Suc len by (intro Suc.IH) simp_all
      with Pair e len Suc show ?thesis by simp
    qed
  qed
qed

lemma retry_writes_working:
  assumes "loop_inv rtc h nxt tgp s" and "lister_valid rtc h nxt tgp"
  shows "writes (snd (RetryOnConflict n (closure rtc h tgp) l s))
           = map (working_object rtc h tgp) [0..<length (writes (snd (RetryOnConflict n (closure rtc h tgp) l s)))]"
  using assms
proof (induction n arbitrary: s l)
  case 0
  then show ?case by (simp add: loop_inv_def)
next
  case (Suc n)
  show ?case
  proof (cases "closure rtc h tgp s")
    case (Pair x s')
    with attempt_writes [of rtc "Namespace (h tgp)" "Name (h tgp)" "Status (h tgp)" s] Suc.prems(1)
    have w: "writes s' = map (working_object rtc h tgp) [0..<length (writes s')]"
      by (simp add: closure_def loop_inv_def)
    show ?thesis
    proof (cases x)
      case None
      with Pair w show ?thesis by simp
    next
      case (Some e)
      with Pair have "fst (closure rtc h tgp s) \<noteq> None" by simp
      then have "loop_inv rtc h nxt tgp (snd (closure rtc h tgp s))"
        unfolding closure_def using Suc.prems by (intro attempt_loop_inv)
      with Pair have "loop_inv rtc h nxt tgp s'" by simp
      from Suc.IH [OF this Suc.prems(2), of "Some e"] Pair Some w show ?thesis by simp
    qed
  qed
qed

subsection \<open>The whole call\<close>

lemma UpdateTiKVGroup_closure:
  "UpdateTiKVGroup rtc h nxt tgp newStatus oldStatus
     = RetryOnConflict (DefaultRetry_Steps rtc) (closure rtc h tgp) None (init h nxt tgp)"
  by (simp add: UpdateTiKVGroup_def closure_def init_def)

lemma loop_inv_init: "loop_inv rtc h nxt tgp (init h nxt tgp)"
  by (simp add: loop_inv_def init_def working_object_def)

lemma UpdateTiKVGroup_writes:
  assumes "lister_valid rtc h nxt tgp"
  shows "writes (snd (UpdateTiKVGroup rtc h nxt tgp newStatus oldStatus))
           = map (working_object rtc h tgp)
               [0..<length (writes (snd (UpdateTiKVGroup rtc h nxt tgp newStatus oldStatus)))]"
  unfolding UpdateTiKVGroup_closure
  using loop_inv_init assms by (rule retry_writes_working)

lemma map_const_replicate:
  "\<forall>x\<in>set xs. f x = c \<Longrightarrow> map f xs = replicate (length xs) c"
  by (induction xs) simp_all

lemma retry_final_status:
  assumes "Status (heap s (tg s)) = status"
  shows "Status (heap (snd (RetryOnConflict n (attempt rtc ns name status) l s))
                 (tg (snd (RetryOnConflict n (attempt rtc ns name status) l s)))) = status"
  using assms
proof (induction n arbitrary: s l)
  case 0
  then show ?case by simp
next
  case (Suc n)
  show ?case
  proof (cases "attempt rtc ns name status s")
    case (Pair x s')
    with attempt_status [OF Suc.prems, of rtc ns name]
    have s': "Status (heap s' (tg s')) = status" by simp
    show ?thesis
    proof (cases x)
      case None
      with Pair s' show ?thesis by simp
    next
      case (Some e)
      with Pair s' Suc.IH [OF s', of "Some e"] show ?thesis by simp
    qed
  qed
qed

text \<open>
  C1 (as amended). The status that is snapshotted at entry and re-asserted onto every
  re-fetched object is the status of the live object passed in, \<open>tg.Status\<close>; the
  argument \<open>oldStatus\<close> is never read. Every object sent to the store, and the
  working object the call ends with, carries that status.
\<close>

theorem C1_snapshot_is_live_status:
  "map Status (writes (snd (UpdateTiKVGroup rtc h nxt tgp newStatus oldStatus)))
     = replicate (length (writes (snd (UpdateTiKVGroup rtc h nxt tgp newStatus oldStatus))))
         (Status (h tgp))
   \<and> Status (heap (snd (UpdateTiKVGroup rtc h nxt tgp newStatus oldStatus))
               (tg (snd (UpdateTiKVGroup rtc h nxt tgp newStatus oldStatus))))
       = Status (h tgp)"
proof -
  let ?s = "\<lparr>heap = h, next_addr = nxt, tg = tgp, updateTg = None,
             writes = [], fetched = [], logs = []\<rparr>"
  have 1: "Status (heap ?s (tg ?s)) = Status (h tgp)" by simp
  have 2: "\<forall>w\<in>set (writes ?s). Status w = Status (h tgp)" by simp
  have "\<forall>w\<in>set (writes (snd (UpdateTiKVGroup rtc h nxt tgp newStatus oldStatus))).
          Status w = Status (h tgp)"
    unfolding UpdateTiKVGroup_def Let_def using 1 2 by (rule retry_status)
  then have "map Status (writes (snd (UpdateTiKVGroup rtc h nxt tgp newStatus oldStatus)))
     = replicate (length (writes (snd (UpdateTiKVGroup rtc h nxt tgp newStatus oldStatus))))
         (Status (h tgp))"
    by (rule map_const_replicate)
  moreover have "Status (heap (snd (UpdateTiKVGroup rtc h nxt tgp newStatus oldStatus))
               (tg (snd (UpdateTiKVGroup rtc h nxt tgp newStatus oldStatus))))
       = Status (h tgp)"
    unfolding UpdateTiKVGroup_def Let_def using 1 by (rule retry_final_status)
  ultimately show ?thesis by simp
qed

theorem C1_snapshot_is_live_status_witness:
  "map Status (writes (snd (UpdateTiKVGroup ex_rtc ex_heap 2 0 (Some ''S1'') (Some ''S0''))))
     = [''live'', ''live'']"
  using C1_snapshot_is_live_status [of ex_rtc ex_heap 2 0 "Some ''S1''" "Some ''S0''"]
  by code_simp

text \<open>
  C1 as stated fails: the live object carries \<open>''live''\<close>, the prior status argument
  is \<open>''S0''\<close>, the first write meets a conflict and the lister answers with an object
  whose status is \<open>''stale''\<close>. The status re-asserted onto the re-fetched object, seen
  in the second write, is \<open>''live''\<close>, not \<open>''S0''\<close>.
\<close>

theorem C1_counterexample:
  "fetched (snd (UpdateTiKVGroup ex_rtc ex_heap 2 0 (Some ''S1'') (Some ''S0''))) = [Inr 1]
   \<and> Status (ex_heap 1) = ''stale''
   \<and> Status (writes (snd (UpdateTiKVGroup ex_rtc ex_heap 2 0 (Some ''S1'') (Some ''S0''))) ! 1)
       = ''live''
   \<and> Status (writes (snd (UpdateTiKVGroup ex_rtc ex_heap 2 0 (Some ''S1'') (Some ''S0''))) ! 1)
       \<noteq> ''S0''"
  by code_simp

text \<open>
  C2 (as amended). When the store answers the first \<open>N\<close> writes with a conflict and
  the next one with success, \<open>N\<close> being below the retry budget, the call returns no
  error after exactly \<open>N + 1\<close> write attempts. The object persisted by the last write
  carries the status the live object had at entry (which is the new status only if the
  caller stored it there), and otherwise is the object of the most recent successful
  lister fetch; when no fetch succeeded (in particular when \<open>N = 0\<close>) it is the
  caller's object, original spec included. The returned object is the store's answer
  to that write.
\<close>

theorem C2_conflicts_then_success:
  assumes "N < DefaultRetry_Steps rtc"
    and "\<forall>i obj. i < N \<longrightarrow> is_conflict (snd (cli_Update rtc i (Namespace (h tgp)) obj))"
    and "\<forall>obj. snd (cli_Update rtc N (Namespace (h tgp)) obj) = None"
    and "lister_valid rtc h nxt tgp"
  shows "fst (UpdateTiKVGroup rtc h nxt tgp newStatus oldStatus) = None
    \<and> length (writes (snd (UpdateTiKVGroup rtc h nxt tgp newStatus oldStatus))) = N + 1
    \<and> Status (last (writes (snd (UpdateTiKVGroup rtc h nxt tgp newStatus oldStatus))))
        = Status (h tgp)
    \<and> last (writes (snd (UpdateTiKVGroup rtc h nxt tgp newStatus oldStatus)))
        = (case latest_fetch (\<lambda>i. tgLister_Get rtc i (Namespace (h tgp)) (Name (h tgp))) N of
             None \<Rightarrow> h tgp
           | Some a \<Rightarrow> (h a)\<lparr>Status := Status (h tgp)\<rparr>)
    \<and> updateTg (snd (UpdateTiKVGroup rtc h nxt tgp newStatus oldStatus))
        = fst (cli_Update rtc N (Namespace (h tgp))
                 (last (writes (snd (UpdateTiKVGroup rtc h nxt tgp newStatus oldStatus)))))"
proof -
  let ?r = "UpdateTiKVGroup rtc h nxt tgp newStatus oldStatus"
  let ?ns = "Namespace (h tgp)"
  have r: "?r = RetryOnConflict (DefaultRetry_Steps rtc)
                  (attempt rtc ?ns (Name (h tgp)) (Status (h tgp))) None (init h nxt tgp)"
    by (simp add: UpdateTiKVGroup_def init_def)
  have stop: "fst ?r = snd (cli_Update rtc N ?ns (last (writes (snd ?r))))
       \<and> updateTg (snd ?r) = fst (cli_Update rtc N ?ns (last (writes (snd ?r))))
       \<and> length (writes (snd ?r)) = Suc N"
    unfolding r using assms(1,2,3) by (intro retry_stops) (simp_all add: init_def)
  then have len: "length (writes (snd ?r)) = Suc N" by simp
  from UpdateTiKVGroup_writes [OF assms(4), of newStatus oldStatus] len
  have "writes (snd ?r) = map (working_object rtc h tgp) [0..<Suc N]" by simp
  then have last: "last (writes (snd ?r)) = working_object rtc h tgp N" by simp
  have st: "Status (working_object rtc h tgp N) = Status (h tgp)"
    by (simp add: working_object_def split: option.splits)
  from stop assms(3) last st show ?thesis
    by (simp add: working_object_def)
qed

theorem C2_conflicts_then_success_witness:
  "fst (UpdateTiKVGroup ex_rtc_lookup ex_heap 2 0 (Some ''S1'') (Some ''S0'')) = None
   \<and> length (writes (snd (UpdateTiKVGroup ex_rtc_lookup ex_heap 2 0 (Some ''S1'') (Some ''S0'')))) = 3
   \<and> last (writes (snd (UpdateTiKVGroup ex_rtc_lookup ex_heap 2 0 (Some ''S1'') (Some ''S0''))))
       = ex_cached\<lparr>Status := ''live''\<rparr>"
proof -
  have 1: "2 < DefaultRetry_Steps ex_rtc_lookup"
    by (simp add: ex_rtc_lookup_def)
  have 2: "\<forall>i obj. i < 2 \<longrightarrow> is_conflict (snd (cli_Update ex_rtc_lookup i (Namespace (ex_heap 0)) obj))"
    by (simp add: ex_rtc_lookup_def)
  have 3: "\<forall>obj. snd (cli_Update ex_rtc_lookup 2 (Namespace (ex_heap 0)) obj) = None"
    by (simp add: ex_rtc_lookup_def)
  have 4: "lister_valid ex_rtc_lookup ex_heap 2 0"
    by (simp add: lister_valid_def ex_rtc_lookup_def)
  have 5: "latest_fetch (\<lambda>i. tgLister_Get ex_rtc_lookup i (Namespace (ex_heap 0)) (Name (ex_heap 0))) 2 = Some 1"
    by (simp add: ex_rtc_lookup_def eval_nat_numeral)
  from C2_conflicts_then_success [OF 1 2 3 4, of "Some ''S1''" "Some ''S0''"] 5
  show ?thesis by (simp add: ex_heap_def ex_live_def)
qed

text \<open>
  C2 as stated fails: with one conflict followed by success and new status \<open>''S1''\<close>,
  the call makes two write attempts and succeeds, but the status persisted by the last
  write is the live object's \<open>''live''\<close>, not \<open>''S1''\<close>.
\<close>

theorem C2_counterexample:
  "fst (UpdateTiKVGroup ex_rtc ex_heap 2 0 (Some ''S1'') (Some ''S0'')) = None
   \<and> length (writes (snd (UpdateTiKVGroup ex_rtc ex_heap 2 0 (Some ''S1'') (Some ''S0'')))) = 2
   \<and> Status (last (writes (snd (UpdateTiKVGroup ex_rtc ex_heap 2 0 (Some ''S1'') (Some ''S0'')))))
       \<noteq> ''S1''"
  by code_simp

text \<open>
  C3. Whatever the store and the lister do, the call makes no more write attempts
  than the retry budget. If every write within the budget meets a conflict, the call
  uses the whole budget and returns the conflict error of the last attempt. If, after
  \<open>k\<close> conflicts within the budget, a write fails with an error that is not a
  conflict, that error is returned after \<open>k + 1\<close> attempts, with no further write.
\<close>

theorem C3_budget_and_errors:
  "length (writes (snd (UpdateTiKVGroup rtc h nxt tgp newStatus oldStatus)))
     \<le> DefaultRetry_Steps rtc
   \<and> (0 < DefaultRetry_Steps rtc \<and>
      (\<forall>i obj. i < DefaultRetry_Steps rtc
          \<longrightarrow> is_conflict (snd (cli_Update rtc i (Namespace (h tgp)) obj))) \<longrightarrow>
        length (writes (snd (UpdateTiKVGroup rtc h nxt tgp newStatus oldStatus)))
          = DefaultRetry_Steps rtc
        \<and> is_conflict (fst (UpdateTiKVGroup rtc h nxt tgp newStatus oldStatus))
        \<and> fst (UpdateTiKVGroup rtc h nxt tgp newStatus oldStatus)
            = snd (cli_Update rtc (DefaultRetry_Steps rtc - 1) (Namespace (h tgp))
                     (last (writes (snd (UpdateTiKVGroup rtc h nxt tgp newStatus oldStatus))))))
   \<and> (k < DefaultRetry_Steps rtc \<and>
      (\<forall>i obj. i < k \<longrightarrow> is_conflict (snd (cli_Update rtc i (Namespace (h tgp)) obj))) \<and>
      (\<forall>obj. snd (cli_Update rtc k (Namespace (h tgp)) obj) = Some e) \<and> \<not> IsConflict e \<longrightarrow>
        fst (UpdateTiKVGroup rtc h nxt tgp newStatus oldStatus) = Some e
        \<and> length (writes (snd (UpdateTiKVGroup rtc h nxt tgp newStatus oldStatus))) = k + 1)"
proof -
  let ?r = "UpdateTiKVGroup rtc h nxt tgp newStatus oldStatus"
  let ?ns = "Namespace (h tgp)"
  let ?n = "DefaultRetry_Steps rtc"
  have r: "?r = RetryOnConflict ?n (attempt rtc ?ns (Name (h tgp)) (Status (h tgp))) None
                  (init h nxt tgp)"
    by (simp add: UpdateTiKVGroup_def init_def)
  have bound: "length (writes (snd ?r)) \<le> ?n"
    unfolding r
    using retry_writes_bound [of ?n rtc ?ns "Name (h tgp)" "Status (h tgp)" None "init h nxt tgp"]
    by (simp add: init_def)
  have exhausted: "length (writes (snd ?r)) = ?n \<and> is_conflict (fst ?r)
      \<and> fst ?r = snd (cli_Update rtc (?n - 1) ?ns (last (writes (snd ?r))))"
    if pos: "0 < ?n" and c: "\<forall>i obj. i < ?n \<longrightarrow> is_conflict (snd (cli_Update rtc i ?ns obj))"
  proof -
    have "fst ?r = (if ?n = 0 then None
              else snd (cli_Update rtc (length (writes (init h nxt tgp)) + ?n - 1) ?ns
                     (last (writes (snd ?r)))))
       \<and> length (writes (snd ?r)) = length (writes (init h nxt tgp)) + ?n"
      unfolding r using c by (intro retry_exhausts) (simp add: init_def)
    with pos have e: "fst ?r = snd (cli_Update rtc (?n - 1) ?ns (last (writes (snd ?r))))"
      and l: "length (writes (snd ?r)) = ?n"
      by (simp_all add: init_def)
    from pos c have "is_conflict (snd (cli_Update rtc (?n - 1) ?ns (last (writes (snd ?r)))))"
      by simp
    with e l show ?thesis by simp
  qed
  have stopped: "fst ?r = Some e \<and> length (writes (snd ?r)) = k + 1"
    if k: "k < ?n" and c: "\<forall>i obj. i < k \<longrightarrow> is_conflict (snd (cli_Update rtc i ?ns obj))"
      and e: "\<forall>obj. snd (cli_Update rtc k ?ns obj) = Some e" and nc: "\<not> IsConflict e"
  proof -
    from e nc have "\<forall>obj. \<not> is_conflict (snd (cli_Update rtc k ?ns obj))" by simp
    then have "fst ?r = snd (cli_Update rtc k ?ns (last (writes (snd ?r))))
       \<and> updateTg (snd ?r) = fst (cli_Update rtc k ?ns (last (writes (snd ?r))))
       \<and> length (writes (snd ?r)) = Suc k"
      unfolding r using k c by (intro retry_stops) (simp_all add: init_def)
    with e show ?thesis by simp
  qed
  from bound exhausted stopped show ?thesis by blast
qed

theorem C3_budget_and_errors_witness:
  "length (writes (snd (UpdateTiKVGroup ex_rtc_conflicts ex_heap 2 0 (Some ''S1'') (Some ''S0'')))) = 5
   \<and> fst (UpdateTiKVGroup ex_rtc_conflicts ex_heap 2 0 (Some ''S1'') (Some ''S0''))
       = Some (Conflict ''fifth conflict'')
   \<and> fst (UpdateTiKVGroup ex_rtc_failure ex_heap 2 0 (Some ''S1'') (Some ''S0''))
       = Some (Opaque ''server unavailable'')
   \<and> length (writes (snd (UpdateTiKVGroup ex_rtc_failure ex_heap 2 0 (Some ''S1'') (Some ''S0'')))) = 2"
proof -
  have 1: "0 < DefaultRetry_Steps ex_rtc_conflicts \<and>
      (\<forall>i obj. i < DefaultRetry_Steps ex_rtc_conflicts
          \<longrightarrow> is_conflict (snd (cli_Update ex_rtc_conflicts i (Namespace (ex_heap 0)) obj)))"
    by (simp add: ex_rtc_conflicts_def)
  have 2: "1 < DefaultRetry_Steps ex_rtc_failure \<and>
      (\<forall>i obj. i < 1 \<longrightarrow> is_conflict (snd (cli_Update ex_rtc_failure i (Namespace (ex_heap 0)) obj))) \<and>
      (\<forall>obj. snd (cli_Update ex_rtc_failure 1 (Namespace (ex_heap 0)) obj)
          = Some (Opaque ''server unavailable'')) \<and> \<not> IsConflict (Opaque ''server unavailable'')"
    by (simp add: ex_rtc_failure_def)
  have 3: "DefaultRetry_Steps ex_rtc_conflicts = 5"
    "cli_Update ex_rtc_conflicts 4 ns obj = (None, Some (Conflict ''fifth conflict''))" for ns obj
    by (simp_all add: ex_rtc_conflicts_def)
  from C3_budget_and_errors [of ex_rtc_conflicts ex_heap 2 0 "Some ''S1''" "Some ''S0''"] 1 3
  have a: "length (writes (snd (UpdateTiKVGroup ex_rtc_conflicts ex_heap 2 0 (Some ''S1'') (Some ''S0'')))) = 5
   \<and> fst (UpdateTiKVGroup ex_rtc_conflicts ex_heap 2 0 (Some ''S1'') (Some ''S0''))
       = Some (Conflict ''fifth conflict'')"
    by simp
  from C3_budget_and_errors [of ex_rtc_failure ex_heap 2 0 "Some ''S1''" "Some ''S0''" 1
      "Opaque ''server unavailable''"] 2
  have b: "fst (UpdateTiKVGroup ex_rtc_failure ex_heap 2 0 (Some ''S1'') (Some ''S0''))
       = Some (Opaque ''server unavailable'')
   \<and> length (writes (snd (UpdateTiKVGroup ex_rtc_failure ex_heap 2 0 (Some ''S1'') (Some ''S0'')))) = 2"
    by simp
  from a b show ?thesis by simp
qed

text \<open>
  C4. In an iteration whose write failed and whose re-fetch from the lister fails,
  the lookup failure is logged, the closure still hands the write error to the retry
  loop, and the working object and the heap stay as they were; so after a conflict
  with budget left the next attempt is made, with the same object. When the re-fetch
  succeeds, the working object becomes a fresh copy of the fetched object carrying the
  snapshotted status, and no object that existed before (the lister's among them) is
  changed, by one iteration or by the whole call.
\<close>

theorem C4_refetch:
  "(cli_Update rtc (length (writes s)) ns (heap s (tg s)) = (r, Some e) \<and>
    tgLister_Get rtc (length (fetched s)) ns name = Inl err \<longrightarrow>
      fst (attempt rtc ns name status s) = Some e
      \<and> tg (snd (attempt rtc ns name status s)) = tg s
      \<and> heap (snd (attempt rtc ns name status s)) = heap s
      \<and> logs (snd (attempt rtc ns name status s)) = logs s @
          [Warningf (''failed to update TiKVGroup: ['' @ ns @ ''/'' @ name
                     @ ''], error: '' @ Error e),
           HandleError (Errorf (''error getting updated TiKVGroup '' @ ns @ ''/''
                     @ name @ '' from lister: '' @ Error err))])
   \<and> (cli_Update rtc (length (writes s)) ns (heap s (tg s)) = (r, Some e) \<and>
      tgLister_Get rtc (length (fetched s)) ns name = Inr a \<longrightarrow>
        fst (attempt rtc ns name status s) = Some e
        \<and> tg (snd (attempt rtc ns name status s)) = next_addr s
        \<and> heap (snd (attempt rtc ns name status s)) (tg (snd (attempt rtc ns name status s)))
            = (heap s a)\<lparr>Status := status\<rparr>
        \<and> (\<forall>b<next_addr s. heap (snd (attempt rtc ns name status s)) b = heap s b))
   \<and> (\<forall>b<nxt. heap (snd (UpdateTiKVGroup rtc h nxt tgp newStatus oldStatus)) b = h b)
   \<and> (Suc i < DefaultRetry_Steps rtc \<and>
      (\<forall>j obj. j \<le> i \<longrightarrow> is_conflict (snd (cli_Update rtc j (Namespace (h tgp)) obj))) \<and>
      tgLister_Get rtc i (Namespace (h tgp)) (Name (h tgp)) = Inl err \<and>
      lister_valid rtc h nxt tgp \<longrightarrow>
        Suc i < length (writes (snd (UpdateTiKVGroup rtc h nxt tgp newStatus oldStatus)))
        \<and> writes (snd (UpdateTiKVGroup rtc h nxt tgp newStatus oldStatus)) ! Suc i
            = writes (snd (UpdateTiKVGroup rtc h nxt tgp newStatus oldStatus)) ! i)"
proof -
  let ?r = "UpdateTiKVGroup rtc h nxt tgp newStatus oldStatus"
  let ?ns = "Namespace (h tgp)"
  let ?n = "DefaultRetry_Steps rtc"
  have r: "?r = RetryOnConflict ?n (attempt rtc ?ns (Name (h tgp)) (Status (h tgp))) None
                  (init h nxt tgp)"
    by (simp add: UpdateTiKVGroup_def init_def)
  have failed: "fst (attempt rtc ns name status s) = Some e
      \<and> tg (snd (attempt rtc ns name status s)) = tg s
      \<and> heap (snd (attempt rtc ns name status s)) = heap s
      \<and> logs (snd (attempt rtc ns name status s)) = logs s @
          [Warningf (''failed to update TiKVGroup: ['' @ ns @ ''/'' @ name
                     @ ''], error: '' @ Error e),
           HandleError (Errorf (''error getting updated TiKVGroup '' @ ns @ ''/''
                     @ name @ '' from lister: '' @ Error err))]"
    if "cli_Update rtc (length (writes s)) ns (heap s (tg s)) = (r, Some e)"
      and "tgLister_Get rtc (length (fetched s)) ns name = Inl err"
    using that by (simp add: attempt_lookup_failed)
  have refetched: "fst (attempt rtc ns name status s) = Some e
        \<and> tg (snd (attempt rtc ns name status s)) = next_addr s
        \<and> heap (snd (attempt rtc ns name status s)) (tg (snd (attempt rtc ns name status s)))
            = (heap s a)\<lparr>Status := status\<rparr>
        \<and> (\<forall>b<next_addr s. heap (snd (attempt rtc ns name status s)) b = heap s b)"
    if "cli_Update rtc (length (writes s)) ns (heap s (tg s)) = (r, Some e)"
      and "tgLister_Get rtc (length (fetched s)) ns name = Inr a"
    using that by (simp add: attempt_refetched)
  have frame: "\<forall>b<nxt. heap (snd ?r) b = h b"
  proof (intro allI impI)
    fix b assume "b < nxt"
    then have "b < next_addr (init h nxt tgp)" by (simp add: init_def)
    then have "heap (snd ?r) b = heap (init h nxt tgp) b"
      unfolding r by (rule retry_old_heap)
    then show "heap (snd ?r) b = h b" by (simp add: init_def)
  qed
  have continues: "Suc i < length (writes (snd ?r)) \<and> writes (snd ?r) ! Suc i = writes (snd ?r) ! i"
    if i: "Suc i < ?n"
      and c: "\<forall>j obj. j \<le> i \<longrightarrow> is_conflict (snd (cli_Update rtc j ?ns obj))"
      and g: "tgLister_Get rtc i ?ns (Name (h tgp)) = Inl err"
      and v: "lister_valid rtc h nxt tgp"
  proof -
    have "length (writes (init h nxt tgp)) + Suc i < length (writes (snd ?r))"
      unfolding r using i c by (intro retry_reaches) (simp_all add: init_def)
    then have len: "Suc i < length (writes (snd ?r))" by (simp add: init_def)
    from UpdateTiKVGroup_writes [OF v, of newStatus oldStatus]
    have w: "writes (snd ?r) = map (working_object rtc h tgp) [0..<length (writes (snd ?r))]" .
    have "writes (snd ?r) ! Suc i = working_object rtc h tgp (Suc i)"
      by (subst w) (use len in simp)
    moreover have "writes (snd ?r) ! i = working_object rtc h tgp i"
      by (subst w) (use len in simp)
    moreover from g have "working_object rtc h tgp (Suc i) = working_object rtc h tgp i"
      by (rule working_object_Suc_Inl)
    ultimately show ?thesis using len by simp
  qed
  from failed refetched frame continues show ?thesis by blast
qed

theorem C4_refetch_witness:
  "fst (attempt ex_rtc_lookup ''ns'' ''tg'' ''live'' (init ex_heap 2 0)) = Some (Conflict ''conflict'')
   \<and> tg (snd (attempt ex_rtc_lookup ''ns'' ''tg'' ''live'' (init ex_heap 2 0))) = 0
   \<and> heap (snd (attempt ex_rtc_lookup ''ns'' ''tg'' ''live'' (init ex_heap 2 0))) = ex_heap
   \<and> tg (snd (attempt ex_rtc ''ns'' ''tg'' ''live'' (init ex_heap 2 0))) = 2
   \<and> heap (snd (attempt ex_rtc ''ns'' ''tg'' ''live'' (init ex_heap 2 0)))
         (tg (snd (attempt ex_rtc ''ns'' ''tg'' ''live'' (init ex_heap 2 0))))
       = ex_cached\<lparr>Status := ''live''\<rparr>
   \<and> heap (snd (UpdateTiKVGroup ex_rtc_lookup ex_heap 2 0 (Some ''S1'') (Some ''S0''))) 1 = ex_cached
   \<and> 1 < length (writes (snd (UpdateTiKVGroup ex_rtc_lookup ex_heap 2 0 (Some ''S1'') (Some ''S0''))))
   \<and> writes (snd (UpdateTiKVGroup ex_rtc_lookup ex_heap 2 0 (Some ''S1'') (Some ''S0''))) ! 1
       = writes (snd (UpdateTiKVGroup ex_rtc_lookup ex_heap 2 0 (Some ''S1'') (Some ''S0''))) ! 0"
proof -
  let ?s = "init ex_heap 2 0 :: (string, string) state"
  have 1: "cli_Update ex_rtc_lookup (length (writes ?s)) ''ns'' (heap ?s (tg ?s))
             = (None, Some (Conflict ''conflict''))
           \<and> tgLister_Get ex_rtc_lookup (length (fetched ?s)) ''ns'' ''tg'' = Inl (Opaque ''not found'')"
    by (simp add: ex_rtc_lookup_def init_def)
  have 2: "cli_Update ex_rtc (length (writes ?s)) ''ns'' (heap ?s (tg ?s))
             = (None, Some (Conflict ''conflict''))
           \<and> tgLister_Get ex_rtc (length (fetched ?s)) ''ns'' ''tg'' = Inr 1"
    by (simp add: ex_rtc_def init_def)
  have 3: "Suc 0 < DefaultRetry_Steps ex_rtc_lookup \<and>
      (\<forall>j obj. j \<le> 0 \<longrightarrow> is_conflict (snd (cli_Update ex_rtc_lookup j (Namespace (ex_heap 0)) obj))) \<and>
      tgLister_Get ex_rtc_lookup 0 (Namespace (ex_heap 0)) (Name (ex_heap 0)) = Inl (Opaque ''not found'') \<and>
      lister_valid ex_rtc_lookup ex_heap 2 0"
    by (simp add: ex_rtc_lookup_def lister_valid_def)
  have 4: "tg ?s = 0" "heap ?s = ex_heap" "next_addr ?s = 2" "ex_heap 1 = ex_cached"
    by (simp_all add: init_def ex_heap_def)
  from C4_refetch [where rtc = ex_rtc_lookup and s = ?s and ns = "''ns''" and name = "''tg''"
      and status = "''live''" and r = None and e = "Conflict ''conflict''"
      and err = "Opaque ''not found''" and h = ex_heap and nxt = 2 and tgp = 0 and i = 0
      and newStatus = "Some ''S1''" and oldStatus = "Some ''S0''" and a = 1] 1 3 4
  have a: "fst (attempt ex_rtc_lookup ''ns'' ''tg'' ''live'' ?s) = Some (Conflict ''conflict'')
   \<and> tg (snd (attempt ex_rtc_lookup ''ns'' ''tg'' ''live'' ?s)) = 0
   \<and> heap (snd (attempt ex_rtc_lookup ''ns'' ''tg'' ''live'' ?s)) = ex_heap
   \<and> heap (snd (UpdateTiKVGroup ex_rtc_lookup ex_heap 2 0 (Some ''S1'') (Some ''S0''))) 1 = ex_cached
   \<and> 1 < length (writes (snd (UpdateTiKVGroup ex_rtc_lookup ex_heap 2 0 (Some ''S1'') (Some ''S0''))))
   \<and> writes (snd (UpdateTiKVGroup ex_rtc_lookup ex_heap 2 0 (Some ''S1'') (Some ''S0''))) ! 1
       = writes (snd (UpdateTiKVGroup ex_rtc_lookup ex_heap 2 0 (Some ''S1'') (Some ''S0''))) ! 0"
    by simp
  from C4_refetch [where rtc = ex_rtc and s = ?s and ns = "''ns''" and name = "''tg''"
      and status = "''live''" and r = None and e = "Conflict ''conflict''" and a = 1
      and err = "Opaque ''not found''" and h = ex_heap and nxt = 2 and tgp = 0 and i = 0
      and newStatus = "Some ''S1''" and oldStatus = "Some ''S0''"] 2 4
  have b: "tg (snd (attempt ex_rtc ''ns'' ''tg'' ''live'' ?s)) = 2
   \<and> heap (snd (attempt ex_rtc ''ns'' ''tg'' ''live'' ?s))
         (tg (snd (attempt ex_rtc ''ns'' ''tg'' ''live'' ?s)))
       = ex_cached\<lparr>Status := ''live''\<rparr>"
    by auto
  from a b show ?thesis by blast
qed

text \<open>
  C10. The result of the call, the final state with its trace of store writes
  included, does not depend on the arguments \<open>newStatus\<close> and \<open>oldStatus\<close>: two calls
  on the same object against the same store and lister agree whatever these two are.
\<close>

theorem C10_status_arguments_ignored:
  "UpdateTiKVGroup rtc h nxt tgp newStatus oldStatus
     = UpdateTiKVGroup rtc h nxt tgp newStatus' oldStatus'"
  by (simp add: UpdateTiKVGroup_def)

end
